theory Spec2Isabelle
  imports Complex_Main
begin

unbundle bit_operations_syntax

section \<open>Numbers, colours and vectors\<close>

text \<open>
  JavaScript numbers and GLSL floats are modelled as mathematical reals: rounding,
  NaN and the infinities are outside the model.  The one place where the day/night
  code can leave the reals, the division by the hour difference of the selected
  keyframes, is written out as the outcome \<open>NonFinite\<close>.

  Colours follow \<open>THREE.Color\<close> of three.js r128 (the version the README names):
  \<open>setHex\<close> takes the three bytes of the hexadecimal colour and divides each by 255,
  \<open>lerp\<close> moves each channel by the given fraction of the distance to the other
  colour.
\<close>

record Color =
  col_r :: real
  col_g :: real
  col_b :: real

record Vector3 =
  vec_x :: real
  vec_y :: real
  vec_z :: real

definition setHex :: "nat \<Rightarrow> Color" where
  "setHex hex =
     \<lparr> col_r = real (drop_bit 16 hex AND 255) / 255,
       col_g = real (drop_bit 8 hex AND 255) / 255,
       col_b = real (hex AND 255) / 255 \<rparr>"

definition lerp :: "Color \<Rightarrow> Color \<Rightarrow> real \<Rightarrow> Color" where
  "lerp this other alpha =
     \<lparr> col_r = col_r this + (col_r other - col_r this) * alpha,
       col_g = col_g this + (col_g other - col_g this) * alpha,
       col_b = col_b this + (col_b other - col_b this) * alpha \<rparr>"

definition vector3 :: "real \<Rightarrow> real \<Rightarrow> real \<Rightarrow> Vector3" where
  "vector3 a b c = \<lparr> vec_x = a, vec_y = b, vec_z = c \<rparr>"

section \<open>The lighting system (js/systems/lighting.js)\<close>

record Keyframe =
  hour :: real
  color :: nat
  intensity :: real

record Light =
  light_color :: Color
  light_intensity :: real
  light_position :: Vector3
  light_shadowMapSize :: "nat option"

text \<open>The uniforms of one glare material, as \<open>createGlareMaterial\<close> lays them out.\<close>

record GlareUniforms =
  uLightPositions :: "Vector3 list"
  uLightColors :: "Color list"
  uLightIntensities :: "real list"
  uCameraPosition :: Vector3
  uGlareIntensity :: real
  uGlareSharpness :: real
  uFresnelPower :: real

record Camera =
  position :: Vector3

record LightingSystem =
  lights_ambient :: "Light option"
  lights_hemisphere :: "Light option"
  lights_main :: "Light option"
  lights_fill :: "Light option"
  lights_rim :: "Light option"
  emissiveLights :: "Light list"
  glareMaterials :: "GlareUniforms list"
  startColor :: Color
  endColor :: Color
  dayNightKeyframes :: "Keyframe list"
  envMapBaked :: bool

definition keyframe :: "real \<Rightarrow> nat \<Rightarrow> real \<Rightarrow> Keyframe" where
  "keyframe h c i = \<lparr> hour = h, color = c, intensity = i \<rparr>"

text \<open>The table the constructor builds (lighting.js, lines 33 to 42).\<close>

definition keyframeTable :: "Keyframe list" where
  "keyframeTable =
     [ keyframe 0 0x1a1a2e 0.3,
       keyframe 5 0x2a2a4e 0.4,
       keyframe 7 0xffaa77 0.8,
       keyframe 10 0xffeedd 1.2,
       keyframe 16 0xffeedd 1.1,
       keyframe 19 0xff9966 0.7,
       keyframe 21 0x1a1a2e 0.35,
       keyframe 24 0x1a1a2e 0.3 ]"

text \<open>
  The constructor: no light exists yet, no glare material is registered, the two
  cached colours are fresh \<open>THREE.Color\<close> objects.  A fresh \<open>THREE.Color\<close> is white
  in r128.
\<close>

definition white :: Color where
  "white = \<lparr> col_r = 1, col_g = 1, col_b = 1 \<rparr>"

definition constructor :: LightingSystem where
  "constructor =
     \<lparr> lights_ambient = None, lights_hemisphere = None, lights_main = None,
       lights_fill = None, lights_rim = None,
       emissiveLights = [], glareMaterials = [],
       startColor = white, endColor = white,
       dayNightKeyframes = keyframeTable,
       envMapBaked = False \<rparr>"

subsection \<open>The day/night cycle\<close>

datatype failure = TypeError | NonFinite

text \<open>
  The scan of \<open>updateDayNightCycle\<close> (lines 318 to 324): the first index \<open>i\<close> below
  \<open>length - 1\<close> whose pair brackets the hour, if there is one.
\<close>

function scanFrom :: "Keyframe list \<Rightarrow> real \<Rightarrow> nat \<Rightarrow> (Keyframe \<times> Keyframe) option" where
  "scanFrom kfs h i =
     (if i + 1 < length kfs then
        (if h \<ge> hour (kfs ! i) \<and> h < hour (kfs ! (i + 1))
         then Some (kfs ! i, kfs ! (i + 1))
         else scanFrom kfs h (i + 1))
      else None)"
  by pat_completeness auto
termination
  by (relation "measure (\<lambda>(kfs, h, i). length kfs - i)") auto

declare scanFrom.simps [simp del]

text \<open>
  Lines 315 to 324: \<open>startFrame\<close> and \<open>endFrame\<close> start as the first and the last
  keyframe and are replaced by the first bracketing pair.  On an empty table both
  are \<open>undefined\<close>, and reading \<open>startFrame.hour\<close> on line 327 throws a TypeError.
\<close>

definition findInterval :: "Keyframe list \<Rightarrow> real \<Rightarrow> failure + (Keyframe \<times> Keyframe)" where
  "findInterval kfs h =
     (if kfs = [] then Inl TypeError
      else (case scanFrom kfs h 0 of
              Some p \<Rightarrow> Inr p
            | None \<Rightarrow> Inr (kfs ! 0, kfs ! (length kfs - 1))))"

text \<open>
  Line 327.  A zero hour difference makes the JavaScript quotient NaN or an
  infinity, which the code would go on to write into the lights; the model stops
  there with \<open>NonFinite\<close>.
\<close>

definition factor :: "real \<Rightarrow> Keyframe \<Rightarrow> Keyframe \<Rightarrow> failure + real" where
  "factor h startFrame endFrame =
     (if hour endFrame - hour startFrame = 0 then Inl NonFinite
      else Inr ((h - hour startFrame) / (hour endFrame - hour startFrame)))"

definition setWindowIntensity :: "real \<Rightarrow> GlareUniforms \<Rightarrow> GlareUniforms" where
  "setWindowIntensity mainIntensity material =
     material\<lparr> uLightIntensities := (uLightIntensities material)[0 := mainIntensity] \<rparr>"

text \<open>
  Lines 329 to 352, for a given sun light \<open>m\<close>, pair of frames and factor \<open>t\<close>.
\<close>

definition applyFrames :: "Light \<Rightarrow> Keyframe \<Rightarrow> Keyframe \<Rightarrow> real \<Rightarrow> LightingSystem \<Rightarrow> LightingSystem" where
  "applyFrames m startFrame endFrame t s =
     (let sc = setHex (color startFrame);
          ec = setHex (color endFrame);
          mainIntensity = intensity startFrame + (intensity endFrame - intensity startFrame) * t
      in s\<lparr> startColor := sc,
             endColor := ec,
             lights_main := Some (m\<lparr> light_color := lerp sc ec t, light_intensity := mainIntensity \<rparr>),
             lights_ambient :=
               map_option (\<lambda>a. a\<lparr> light_intensity := 0.2 + mainIntensity * 0.25 \<rparr>) (lights_ambient s),
             lights_hemisphere :=
               map_option (\<lambda>a. a\<lparr> light_intensity := 0.1 + mainIntensity * 0.25 \<rparr>) (lights_hemisphere s),
             glareMaterials := map (setWindowIntensity mainIntensity) (glareMaterials s) \<rparr>)"

text \<open>
  \<open>updateDayNightCycle\<close> from line 314 on, with the hour read from the clock as a
  parameter.  Without a sun light the method returns at once (line 309).
\<close>

definition updateDayNightCycleAt :: "real \<Rightarrow> LightingSystem \<Rightarrow> failure + LightingSystem" where
  "updateDayNightCycleAt h s =
     (case lights_main s of
        None \<Rightarrow> Inr s
      | Some m \<Rightarrow>
         (case findInterval (dayNightKeyframes s) h of
            Inl e \<Rightarrow> Inl e
          | Inr (startFrame, endFrame) \<Rightarrow>
             (case factor h startFrame endFrame of
                Inl e \<Rightarrow> Inl e
              | Inr t \<Rightarrow> Inr (applyFrames m startFrame endFrame t s))))"

text \<open>The clock: \<open>new Date()\<close> with its hours (0 to 23) and minutes (0 to 59).\<close>

record Date =
  getHours :: nat
  getMinutes :: nat

definition hourOf :: "Date \<Rightarrow> real" where
  "hourOf now = real (getHours now) + real (getMinutes now) / 60"

definition updateDayNightCycle :: "Date \<Rightarrow> LightingSystem \<Rightarrow> failure + LightingSystem" where
  "updateDayNightCycle now s = updateDayNightCycleAt (hourOf now) s"

definition updateGlare :: "Camera \<Rightarrow> LightingSystem \<Rightarrow> LightingSystem" where
  "updateGlare camera s =
     s\<lparr> glareMaterials :=
          map (\<lambda>material. material\<lparr> uCameraPosition := position camera \<rparr>) (glareMaterials s) \<rparr>"

definition update :: "Date \<Rightarrow> Camera \<Rightarrow> LightingSystem \<Rightarrow> failure + LightingSystem" where
  "update now camera s =
     (case updateDayNightCycle now s of
        Inl e \<Rightarrow> Inl e
      | Inr s' \<Rightarrow> Inr (updateGlare camera s'))"


text \<open>
  The invariant the specification gives for the table: hours strictly increasing,
  the first keyframe at hour 0, the last one at hour 24.
\<close>

definition keyframeInvariant :: "Keyframe list \<Rightarrow> bool" where
  "keyframeInvariant kfs \<longleftrightarrow>
     kfs \<noteq> [] \<and> sorted_wrt (<) (map hour kfs) \<and>
     hour (kfs ! 0) = 0 \<and> hour (kfs ! (length kfs - 1)) = 24"

subsection \<open>Initialisation\<close>

definition light :: "nat \<Rightarrow> real \<Rightarrow> Vector3 \<Rightarrow> Light" where
  "light hex strength pos =
     \<lparr> light_color = setHex hex, light_intensity = strength, light_position = pos,
       light_shadowMapSize = None \<rparr>"

text \<open>
  \<open>createEnvironmentMap\<close> bakes the auxiliary scene into the scene's environment
  texture; of that only the fact that it ran is kept.
\<close>

definition createEnvironmentMap :: "LightingSystem \<Rightarrow> LightingSystem" where
  "createEnvironmentMap s = s\<lparr> envMapBaked := True \<rparr>"

text \<open>
  \<open>setupLights\<close> (lines 101 to 160), with \<open>window.innerWidth\<close> as a parameter and
  the intensities of \<open>LIGHTING_CONFIG\<close> and map sizes of \<open>SHADOW_CONFIG\<close> from
  js/config/config.js.  Of the shadow set-up only the map size is kept.  Lights that
  are given no position stay where three.js creates them.
\<close>

definition setupLights :: "nat \<Rightarrow> LightingSystem \<Rightarrow> LightingSystem" where
  "setupLights innerWidth s =
     (let isMobile = innerWidth < 768;
          shadowMapSize = (if isMobile then 2048 else 4096)
      in s\<lparr> lights_ambient := Some (light 0x1a1a24 0.35 (vector3 0 0 0)),
             lights_hemisphere := Some (light 0x87AECB 0.25 (vector3 0 1 0)),
             lights_main :=
               Some ((light 0xffeedd 0.22 (vector3 (-5) 8 3))\<lparr> light_shadowMapSize := Some shadowMapSize \<rparr>),
             lights_fill := Some (light 0xaaccff 0.5 (vector3 5 4 2)),
             lights_rim := Some (light 0xffffff 0.2 (vector3 0 4 (-6))) \<rparr>)"

text \<open>
  \<open>init\<close> (lines 48 to 55).  The call that prepares three.js for rectangular area
  lights is left out.  Nothing in \<open>init\<close> reads the keyframe table, and nothing in
  it is modelled as failing.
\<close>

definition init :: "nat \<Rightarrow> LightingSystem \<Rightarrow> failure + LightingSystem" where
  "init innerWidth s = Inr (setupLights innerWidth (createEnvironmentMap s))"

subsection \<open>Glare materials\<close>

record GlareOptions =
  opt_glareIntensity :: "real option"
  opt_glareSharpness :: "real option"
  opt_fresnelPower :: "real option"

definition orDefault :: "'a option \<Rightarrow> 'a \<Rightarrow> 'a" where
  "orDefault v d = (case v of None \<Rightarrow> d | Some a \<Rightarrow> a)"

definition newGlareUniforms :: "GlareOptions \<Rightarrow> GlareUniforms" where
  "newGlareUniforms options =
     \<lparr> uLightPositions = [vector3 (-5) 8 3, vector3 2.5 2 (-1), vector3 0 0 0, vector3 0 0 0],
       uLightColors = [setHex 0xffeedd, setHex 0xffddaa, setHex 0x000000, setHex 0x000000],
       uLightIntensities = [0.22, 0.8, 0, 0],
       uCameraPosition = vector3 0 0 0,
       uGlareIntensity = orDefault (opt_glareIntensity options) 0.35,
       uGlareSharpness = orDefault (opt_glareSharpness options) 6.0,
       uFresnelPower = orDefault (opt_fresnelPower options) 2.5 \<rparr>"

definition createGlareMaterial :: "GlareOptions \<Rightarrow> LightingSystem \<Rightarrow> GlareUniforms \<times> LightingSystem" where
  "createGlareMaterial options s =
     (let material = newGlareUniforms options
      in (material, s\<lparr> glareMaterials := glareMaterials s @ [material] \<rparr>))"

text \<open>
  The three uniform arrays hold four entries each; \<open>uLightIntensities\<close> is a
  \<open>Float32Array\<close> of length 4, whose writes outside the range are ignored, as
  those of \<open>list_update\<close> are.  That a \<open>Float32Array\<close> keeps its entries in single
  precision is rounding, and outside the model.
\<close>

definition glareWellFormed :: "GlareUniforms \<Rightarrow> bool" where
  "glareWellFormed material \<longleftrightarrow>
     length (uLightPositions material) = 4 \<and>
     length (uLightColors material) = 4 \<and>
     length (uLightIntensities material) = 4"

subsection \<open>The glare fragment shader (lines 216 to 264)\<close>

text \<open>
  GLSL's built-ins over the reals.  \<open>normalize\<close> of the zero vector and \<open>pow\<close> of
  a negative base are undefined in GLSL; here they take the values HOL's division
  and \<open>powr\<close> give.
\<close>

definition dot3 :: "Vector3 \<Rightarrow> Vector3 \<Rightarrow> real" where
  "dot3 a b = vec_x a * vec_x b + vec_y a * vec_y b + vec_z a * vec_z b"

definition add3 :: "Vector3 \<Rightarrow> Vector3 \<Rightarrow> Vector3" where
  "add3 a b = vector3 (vec_x a + vec_x b) (vec_y a + vec_y b) (vec_z a + vec_z b)"

definition sub3 :: "Vector3 \<Rightarrow> Vector3 \<Rightarrow> Vector3" where
  "sub3 a b = vector3 (vec_x a - vec_x b) (vec_y a - vec_y b) (vec_z a - vec_z b)"

definition scale3 :: "Vector3 \<Rightarrow> real \<Rightarrow> Vector3" where
  "scale3 a k = vector3 (vec_x a * k) (vec_y a * k) (vec_z a * k)"

definition length3 :: "Vector3 \<Rightarrow> real" where
  "length3 a = sqrt (dot3 a a)"

definition normalize3 :: "Vector3 \<Rightarrow> Vector3" where
  "normalize3 a = scale3 a (1 / length3 a)"

definition pow :: "real \<Rightarrow> real \<Rightarrow> real" where
  "pow a e = a powr e"

definition clamp :: "real \<Rightarrow> real \<Rightarrow> real \<Rightarrow> real" where
  "clamp a lo hi = min (max a lo) hi"

definition colorVec :: "Color \<Rightarrow> Vector3" where
  "colorVec c = vector3 (col_r c) (col_g c) (col_b c)"

text \<open>The body of the loop over the four light slots (lines 240 to 252).\<close>

definition glareSlot :: "GlareUniforms \<Rightarrow> Vector3 \<Rightarrow> Vector3 \<Rightarrow> Vector3 \<Rightarrow> Vector3 \<Rightarrow> nat \<Rightarrow> Vector3" where
  "glareSlot u vWorldPosition viewDir normal glareColor i =
     (if uLightIntensities u ! i > 0 then
        (let lightDir = normalize3 (sub3 (uLightPositions u ! i) vWorldPosition);
             halfDir = normalize3 (add3 lightDir viewDir);
             spec = pow (max (dot3 normal halfDir) 0) (uGlareSharpness u * 10);
             dist = length3 (sub3 (uLightPositions u ! i) vWorldPosition);
             attenuation = 1 / (1 + 0.05 * dist + 0.01 * dist * dist)
         in add3 glareColor
              (scale3 (colorVec (uLightColors u ! i)) (spec * (uLightIntensities u ! i) * attenuation)))
      else glareColor)"

record FragColor =
  frag_rgb :: Vector3
  frag_alpha :: real

definition fragmentShader :: "GlareUniforms \<Rightarrow> Vector3 \<Rightarrow> Vector3 \<Rightarrow> FragColor" where
  "fragmentShader u vWorldPosition vWorldNormal =
     (let viewDir = normalize3 (sub3 (uCameraPosition u) vWorldPosition);
          normal = normalize3 vWorldNormal;
          fresnel = pow (1 - max (dot3 viewDir normal) 0) (uFresnelPower u);
          glareColor = foldl (glareSlot u vWorldPosition viewDir normal) (vector3 0 0 0) [0..<4];
          alpha = clamp (length3 glareColor * uGlareIntensity u + fresnel * 0.08) 0 0.7;
          finalColor = add3 glareColor (scale3 (vector3 0.9 0.95 1) (fresnel * 0.05))
      in \<lparr> frag_rgb = finalColor, frag_alpha = alpha \<rparr>)"


section \<open>The outline pass and its overlay material (js/core/scene.js)\<close>

record Vec4 =
  v4_x :: real
  v4_y :: real
  v4_z :: real
  v4_w :: real

definition add4 :: "Vec4 \<Rightarrow> Vec4 \<Rightarrow> Vec4" where
  "add4 a b = \<lparr> v4_x = v4_x a + v4_x b, v4_y = v4_y a + v4_y b,
                v4_z = v4_z a + v4_z b, v4_w = v4_w a + v4_w b \<rparr>"

definition scale4 :: "Vec4 \<Rightarrow> real \<Rightarrow> Vec4" where
  "scale4 a k = \<lparr> v4_x = v4_x a * k, v4_y = v4_y a * k, v4_z = v4_z a * k, v4_w = v4_w a * k \<rparr>"

text \<open>A texture is what \<open>texture2D\<close> reads from it at each coordinate.\<close>

type_synonym Texture = "real \<times> real \<Rightarrow> Vec4"

datatype UniformValue = Null | Float real | Flag bool | Sampler Texture

datatype Blending = NoBlending | NormalBlending | AdditiveBlending | SubtractiveBlending | MultiplyBlending

type_synonym Uniforms = "string \<rightharpoonup> UniformValue"

record ShaderMaterial =
  uniforms :: Uniforms
  fragmentProgram :: "Uniforms \<Rightarrow> real \<times> real \<Rightarrow> Vec4 option"
  blending :: Blending
  depthTest :: bool
  depthWrite :: bool
  transparent :: bool

text \<open>
  The fragment program of the replacement (lines 207 to 218).  It declares four
  uniforms and reads them by name; it gives no colour when one of them is not bound
  to a value of its declared kind.
\<close>

definition overlayFragment :: "Uniforms \<Rightarrow> real \<times> real \<Rightarrow> Vec4 option" where
  "overlayFragment us vUv =
     (case (us ''edgeTexture1'', us ''edgeTexture2'', us ''edgeStrength'', us ''edgeGlow'') of
        (Some (Sampler edgeTexture1), Some (Sampler edgeTexture2), Some (Float strength), Some (Float glow)) \<Rightarrow>
          (let edge = add4 (edgeTexture1 vUv) (scale4 (edgeTexture2 vUv) glow)
           in Some (scale4 edge strength))
      | _ \<Rightarrow> None)"

definition overlayMaterial :: ShaderMaterial where
  "overlayMaterial =
     \<lparr> uniforms =
         [''maskTexture'' \<mapsto> Null,
          ''edgeTexture1'' \<mapsto> Null,
          ''edgeTexture2'' \<mapsto> Null,
          ''patternTexture'' \<mapsto> Null,
          ''edgeStrength'' \<mapsto> Float 1.0,
          ''edgeGlow'' \<mapsto> Float 1.0,
          ''usePatternTexture'' \<mapsto> Float 0.0],
       fragmentProgram = overlayFragment,
       blending = AdditiveBlending,
       depthTest = False,
       depthWrite = False,
       transparent = True \<rparr>"

record Object3D =
  obj_id :: nat
  obj_name :: string
  obj_worldPosition :: Vector3
  obj_rotation_y :: real

record OutlinePass =
  visibleEdgeColor :: Color
  hiddenEdgeColor :: Color
  edgeStrength :: real
  edgeGlow :: real
  edgeThickness :: real
  pulsePeriod :: real
  enabled :: bool
  passMaterial :: ShaderMaterial
  selectedObjects :: "Object3D list"
  patternTexture :: "Texture option"
  usePatternTexture :: bool

text \<open>
  The outline pass as \<open>setupPostProcessing\<close> leaves it (lines 175 to 223); no
  pattern texture, the pattern switch off and no selected objects are what the
  pass's own constructor gives.
\<close>

definition newOutlinePass :: OutlinePass where
  "newOutlinePass =
     \<lparr> visibleEdgeColor = setHex 0xff3333,
       hiddenEdgeColor = setHex 0xff3333,
       edgeStrength = 2.0,
       edgeGlow = 0.3,
       edgeThickness = 1.0,
       pulsePeriod = 3.0,
       enabled = False,
       passMaterial = overlayMaterial,
       selectedObjects = [],
       patternTexture = None,
       usePatternTexture = False \<rparr>"

datatype Pass = RenderPass | UnrealBloomPass real real real | Outline OutlinePass

text \<open>
  \<open>setupPostProcessing\<close> (lines 134 to 228): without the composer classes there is
  no composer; without the outline class the chain ends at the bloom pass.
\<close>

definition setupPostProcessing :: "bool \<Rightarrow> bool \<Rightarrow> Pass list option" where
  "setupPostProcessing composerAvailable outlineAvailable =
     (if \<not> composerAvailable then None
      else Some ([RenderPass, UnrealBloomPass 0.3 0.5 0.8] @
                 (if outlineAvailable then [Outline newOutlinePass] else [])))"

text \<open>
  What the render step of three.js r128's \<open>OutlinePass\<close> does with the overlay
  material, as the comment above line 174 and the README describe it: it assigns
  \<open>.value\<close> of seven named uniforms, from its three render targets and its own
  settings.  Assigning to a name the material does not declare throws.
\<close>

definition renderWrites :: "OutlinePass \<Rightarrow> Texture \<Rightarrow> Texture \<Rightarrow> Texture \<Rightarrow> (string \<times> UniformValue) list" where
  "renderWrites pass maskBuffer edgeBuffer1 blurBuffer2 =
     [(''maskTexture'', Sampler maskBuffer),
      (''edgeTexture1'', Sampler edgeBuffer1),
      (''edgeTexture2'', Sampler blurBuffer2),
      (''patternTexture'', (case patternTexture pass of None \<Rightarrow> Null | Some tex \<Rightarrow> Sampler tex)),
      (''edgeStrength'', Float (edgeStrength pass)),
      (''edgeGlow'', Float (edgeGlow pass)),
      (''usePatternTexture'', Flag (usePatternTexture pass))]"

fun assignUniforms :: "(string \<times> UniformValue) list \<Rightarrow> Uniforms \<Rightarrow> failure + Uniforms" where
  "assignUniforms [] us = Inr us"
| "assignUniforms ((name, v) # rest) us =
     (case us name of
        None \<Rightarrow> Inl TypeError
      | Some _ \<Rightarrow> assignUniforms rest (us(name \<mapsto> v)))"

definition renderOverlay :: "OutlinePass \<Rightarrow> Texture \<Rightarrow> Texture \<Rightarrow> Texture \<Rightarrow> real \<times> real \<Rightarrow> failure + Vec4 option" where
  "renderOverlay pass maskBuffer edgeBuffer1 blurBuffer2 vUv =
     (case assignUniforms (renderWrites pass maskBuffer edgeBuffer1 blurBuffer2)
             (uniforms (passMaterial pass)) of
        Inl e \<Rightarrow> Inl e
      | Inr us \<Rightarrow> Inr (fragmentProgram (passMaterial pass) us vUv))"


section \<open>The hint scheduler (InteractionManager)\<close>

subsection \<open>Timers and tweens\<close>

text \<open>
  The browser's pending \<open>setTimeout\<close> timers are a list of identifier and delay;
  identifiers are positive and never reused.  A timer leaves the list when it fires
  or is cleared.

  GSAP 3 (the README names 3.12.2) keeps the running tweens in creation order.
  \<open>gsap.to\<close> adds a tween and, with the default \<open>overwrite: false\<close>, leaves the
  tweens already running on the same target alone.  A tween records its start value
  at its first render.  On every tick each running tween is rendered in order: its
  property is set to \<open>start + (end - start) * ease(progress)\<close>, and a tween whose
  time is up runs its completion callback and leaves the list.
\<close>

datatype Ease = Power1In | Power1Out | Power2InOut

definition easeFn :: "Ease \<Rightarrow> real \<Rightarrow> real" where
  "easeFn e p =
     (case e of
        Power1In \<Rightarrow> p * p
      | Power1Out \<Rightarrow> 1 - (1 - p) * (1 - p)
      | Power2InOut \<Rightarrow>
          (if p < 0.5 then (p * 2) ^ 3 / 2 else 1 - ((1 - p) * 2) ^ 3 / 2))"

datatype TweenTarget = OutlineEdgeStrength | CameraPosition | ControlsTarget

datatype TweenValue = Scalar real | Vec Vector3

datatype Callback = NoCallback | HideHintComplete | ResetCameraComplete

record Tween =
  tw_target :: TweenTarget
  tw_to :: TweenValue
  tw_duration :: real
  tw_ease :: Ease
  tw_onComplete :: Callback
  tw_elapsed :: real
  tw_start :: "TweenValue option"

record InteractionManager =
  camera_position :: Vector3
  controls_target :: Vector3
  controls_enabled :: bool
  currentZoomedObject :: "Object3D option"
  originalCameraPosition :: Vector3
  originalControlsTarget :: Vector3
  outlinePass :: "OutlinePass option"
  hintActive :: bool
  hintTimer :: "nat option"
  timers :: "(nat \<times> nat) list"
  nextTimerId :: nat
  tweens :: "Tween list"

definition HINT_DELAY :: nat where
  "HINT_DELAY = 5000"

text \<open>The constructor (lines 10 to 41), for a given camera and controls.\<close>

definition newInteractionManager :: "Vector3 \<Rightarrow> Vector3 \<Rightarrow> InteractionManager" where
  "newInteractionManager cameraPos controlsTgt =
     \<lparr> camera_position = cameraPos,
       controls_target = controlsTgt,
       controls_enabled = True,
       currentZoomedObject = None,
       originalCameraPosition = vector3 0 3 5,
       originalControlsTarget = vector3 0 0 0,
       outlinePass = None,
       hintActive = False,
       hintTimer = None,
       timers = [],
       nextTimerId = 1,
       tweens = [] \<rparr>"

definition clearTimeout :: "nat \<Rightarrow> InteractionManager \<Rightarrow> InteractionManager" where
  "clearTimeout i s = s\<lparr> timers := filter (\<lambda>t. fst t \<noteq> i) (timers s) \<rparr>"

definition setTimeout :: "nat \<Rightarrow> InteractionManager \<Rightarrow> nat \<times> InteractionManager" where
  "setTimeout delay s =
     (nextTimerId s,
      s\<lparr> timers := timers s @ [(nextTimerId s, delay)], nextTimerId := nextTimerId s + 1 \<rparr>)"

definition newTween :: "TweenTarget \<Rightarrow> TweenValue \<Rightarrow> real \<Rightarrow> Ease \<Rightarrow> Callback \<Rightarrow> Tween" where
  "newTween target dest duration ease onComplete =
     \<lparr> tw_target = target, tw_to = dest, tw_duration = duration, tw_ease = ease,
       tw_onComplete = onComplete, tw_elapsed = 0, tw_start = None \<rparr>"

definition gsap_to :: "TweenTarget \<Rightarrow> TweenValue \<Rightarrow> real \<Rightarrow> Ease \<Rightarrow> Callback \<Rightarrow> InteractionManager \<Rightarrow> InteractionManager" where
  "gsap_to target dest duration ease onComplete s =
     s\<lparr> tweens := tweens s @ [newTween target dest duration ease onComplete] \<rparr>"

subsection \<open>The methods\<close>

text \<open>
  \<open>startHintTimer\<close> (lines 427 to 432).  The test \<open>if (this.hintTimer)\<close> holds for
  every identifier but 0.
\<close>

definition startHintTimer :: "InteractionManager \<Rightarrow> InteractionManager" where
  "startHintTimer s =
     (let s1 = (case hintTimer s of
                  Some i \<Rightarrow> (if i \<noteq> 0 then clearTimeout i s else s)
                | None \<Rightarrow> s);
          (i, s2) = setTimeout HINT_DELAY s1
      in s2\<lparr> hintTimer := Some i \<rparr>)"

text \<open>\<open>setOutlinePass\<close> (lines 418 to 422).\<close>

definition setOutlinePass :: "OutlinePass \<Rightarrow> Object3D list \<Rightarrow> InteractionManager \<Rightarrow> InteractionManager" where
  "setOutlinePass pass interactiveObjects s =
     startHintTimer (s\<lparr> outlinePass := Some (pass\<lparr> selectedObjects := interactiveObjects \<rparr>) \<rparr>)"

text \<open>\<open>showHint\<close> (lines 437 to 449).\<close>

definition showHint :: "InteractionManager \<Rightarrow> InteractionManager" where
  "showHint s =
     (case outlinePass s of
        None \<Rightarrow> s
      | Some pass \<Rightarrow>
          (if currentZoomedObject s \<noteq> None then s
           else gsap_to OutlineEdgeStrength (Scalar 2.0) 2.0 Power1Out NoCallback
                  (s\<lparr> hintActive := True,
                       outlinePass := Some (pass\<lparr> edgeStrength := 0, enabled := True \<rparr>) \<rparr>)))"

text \<open>\<open>hideHint\<close> (lines 454 to 466).\<close>

definition hideHint :: "InteractionManager \<Rightarrow> InteractionManager" where
  "hideHint s =
     (if outlinePass s = None \<or> \<not> hintActive s then s
      else gsap_to OutlineEdgeStrength (Scalar 0) 1.0 Power1In HideHintComplete s)"

text \<open>
  \<open>ZOOM_CONFIG\<close> of js/config/config.js: distance, vertical offset, vertical
  offset of the target, and whether the object's rotation turns the offset.
\<close>

definition zoomConfig :: "string \<Rightarrow> real \<times> real \<times> real \<times> bool" where
  "zoomConfig name =
     (if name = ''monitor'' then (2, 1.35, 1.35, False)
      else if name = ''laptop'' then (0.8, 1, 0.6, True)
      else if name = ''notebook'' then (0.1, 1, 0, True)
      else (1.5, 0, 0, False))"

definition zoomDuration :: real where
  "zoomDuration = 1.5"

text \<open>\<open>zoomToObject\<close> (lines 222 to 293).\<close>

definition zoomToObject :: "Object3D \<Rightarrow> InteractionManager \<Rightarrow> InteractionManager" where
  "zoomToObject obj s =
     (let s1 = s\<lparr> currentZoomedObject := Some obj,
                   controls_enabled := False,
                   originalCameraPosition := camera_position s,
                   originalControlsTarget := controls_target s \<rparr>;
          objectPosition = obj_worldPosition obj;
          (zoomDistance, yOffset, targetYOffset, useRotation) = zoomConfig (obj_name obj);
          offsetX = (if useRotation then sin (obj_rotation_y obj) * zoomDistance else 0);
          offsetZ = (if useRotation then cos (obj_rotation_y obj) * zoomDistance else zoomDistance);
          zoomPosition = vector3 (vec_x objectPosition + offsetX) (vec_y objectPosition + yOffset)
                           (vec_z objectPosition + offsetZ);
          s2 = gsap_to CameraPosition (Vec zoomPosition) zoomDuration Power2InOut NoCallback s1
      in gsap_to ControlsTarget
           (Vec (vector3 (vec_x objectPosition) (vec_y objectPosition + targetYOffset) (vec_z objectPosition)))
           zoomDuration Power2InOut NoCallback s2)"

text \<open>\<open>resetCamera\<close> (lines 298 to 325).\<close>

definition resetCamera :: "InteractionManager \<Rightarrow> InteractionManager" where
  "resetCamera s =
     (if currentZoomedObject s \<noteq> None then
        gsap_to ControlsTarget (Vec (originalControlsTarget s)) zoomDuration Power2InOut ResetCameraComplete
          (gsap_to CameraPosition (Vec (originalCameraPosition s)) zoomDuration Power2InOut NoCallback s)
      else s)"

text \<open>
  \<open>onMouseClick\<close> (lines 172 to 217).  The event arrives with two facts the model
  takes as given: whether it is a native click within 500 ms of a handled tap, and
  what the ray hits: nothing, or something whose interactive ancestor (if it has
  one) is found by walking up the parents.
\<close>

datatype RayHit = NoIntersection | Intersection "Object3D option"

definition onMouseClick :: "bool \<Rightarrow> RayHit \<Rightarrow> InteractionManager \<Rightarrow> InteractionManager" where
  "onMouseClick afterTap hit s =
     (if afterTap then s
      else (case hit of
              Intersection (Some clickedObject) \<Rightarrow>
                (let s1 = startHintTimer (hideHint s)
                 in (case currentZoomedObject s1 of
                       Some zoomed \<Rightarrow>
                         (if obj_id clickedObject = obj_id zoomed then resetCamera s1
                          else zoomToObject clickedObject s1)
                     | None \<Rightarrow> zoomToObject clickedObject s1))
            | Intersection None \<Rightarrow> s
            | NoIntersection \<Rightarrow>
                (if currentZoomedObject s \<noteq> None then resetCamera s else s)))"

text \<open>The Escape key (lines 65 to 69).\<close>

definition onEscape :: "InteractionManager \<Rightarrow> InteractionManager" where
  "onEscape s = (if currentZoomedObject s \<noteq> None then resetCamera s else s)"

text \<open>The two completion callbacks (lines 318 to 322 and 461 to 464).\<close>

definition runCallback :: "Callback \<Rightarrow> InteractionManager \<Rightarrow> InteractionManager" where
  "runCallback cb s =
     (case cb of
        NoCallback \<Rightarrow> s
      | HideHintComplete \<Rightarrow>
          s\<lparr> outlinePass := map_option (\<lambda>pass. pass\<lparr> enabled := False \<rparr>) (outlinePass s),
             hintActive := False \<rparr>
      | ResetCameraComplete \<Rightarrow>
          startHintTimer (s\<lparr> controls_enabled := True, currentZoomedObject := None \<rparr>))"

subsection \<open>The environment's steps\<close>

text \<open>A pending timer fires: it leaves the list and its callback, \<open>showHint\<close>, runs.\<close>

definition timerFires :: "nat \<Rightarrow> InteractionManager \<Rightarrow> InteractionManager" where
  "timerFires i s =
     (if i \<in> fst ` set (timers s) then showHint (clearTimeout i s) else s)"

definition readTarget :: "TweenTarget \<Rightarrow> InteractionManager \<Rightarrow> TweenValue" where
  "readTarget target s =
     (case target of
        OutlineEdgeStrength \<Rightarrow>
          (case outlinePass s of None \<Rightarrow> Scalar 0 | Some pass \<Rightarrow> Scalar (edgeStrength pass))
      | CameraPosition \<Rightarrow> Vec (camera_position s)
      | ControlsTarget \<Rightarrow> Vec (controls_target s))"

definition writeTarget :: "TweenTarget \<Rightarrow> TweenValue \<Rightarrow> InteractionManager \<Rightarrow> InteractionManager" where
  "writeTarget target v s =
     (case (target, v) of
        (OutlineEdgeStrength, Scalar a) \<Rightarrow>
          s\<lparr> outlinePass := map_option (\<lambda>pass. pass\<lparr> edgeStrength := a \<rparr>) (outlinePass s) \<rparr>
      | (CameraPosition, Vec a) \<Rightarrow> s\<lparr> camera_position := a \<rparr>
      | (ControlsTarget, Vec a) \<Rightarrow> s\<lparr> controls_target := a \<rparr>
      | _ \<Rightarrow> s)"

definition mix :: "TweenValue \<Rightarrow> TweenValue \<Rightarrow> real \<Rightarrow> TweenValue" where
  "mix a b f =
     (case (a, b) of
        (Scalar u, Scalar v) \<Rightarrow> Scalar (u + (v - u) * f)
      | (Vec u, Vec v) \<Rightarrow> Vec (add3 u (scale3 (sub3 v u) f))
      | _ \<Rightarrow> a)"

definition renderTween :: "real \<Rightarrow> InteractionManager \<Rightarrow> Tween \<Rightarrow> InteractionManager" where
  "renderTween dt s tw =
     (let start = (case tw_start tw of Some v \<Rightarrow> v | None \<Rightarrow> readTarget (tw_target tw) s);
          elapsed = tw_elapsed tw + dt;
          progress = min 1 (elapsed / tw_duration tw);
          s1 = writeTarget (tw_target tw) (mix start (tw_to tw) (easeFn (tw_ease tw) progress)) s
      in if elapsed \<ge> tw_duration tw then runCallback (tw_onComplete tw) s1
         else s1\<lparr> tweens := tweens s1 @ [tw\<lparr> tw_elapsed := elapsed, tw_start := Some start \<rparr>] \<rparr>)"

text \<open>
  GSAP's ticker smooths lag, and nothing in the source turns that off: with the
  default \<open>lagSmoothing(500, 33)\<close> a frame that comes more than 500 ms after the
  previous one moves the animations on by 33 ms only.
\<close>

definition lagSmoothing :: "real \<Rightarrow> real" where
  "lagSmoothing dt = (if dt > 0.5 then 0.033 else dt)"

text \<open>
  One tick of GSAP's ticker, \<open>dt\<close> seconds after the previous one: every running
  tween is rendered, in order, with the smoothed step.
\<close>

definition tick :: "real \<Rightarrow> InteractionManager \<Rightarrow> InteractionManager" where
  "tick dt s = foldl (renderTween (lagSmoothing dt)) (s\<lparr> tweens := [] \<rparr>) (tweens s)"

definition ticks :: "real list \<Rightarrow> InteractionManager \<Rightarrow> InteractionManager" where
  "ticks dts s = foldl (\<lambda>st dt. tick dt st) s dts"

text \<open>The states the interaction manager can reach.\<close>

inductive reachable :: "InteractionManager \<Rightarrow> bool" where
  start: "reachable (newInteractionManager cameraPos controlsTgt)"
| wire: "reachable s \<Longrightarrow> reachable (setOutlinePass pass objs s)"
| click: "reachable s \<Longrightarrow> reachable (onMouseClick afterTap hit s)"
| escape: "reachable s \<Longrightarrow> reachable (onEscape s)"
| fire: "reachable s \<Longrightarrow> reachable (timerFires i s)"
| frame: "reachable s \<Longrightarrow> 0 < dt \<Longrightarrow> reachable (tick dt s)"


subsection \<open>Views of the scheduler's state\<close>

text \<open>
  What the timer code reads and writes: the pending timers, the stored identifier
  and the next identifier the browser hands out.  The invariant: nothing is pending,
  or exactly the stored timer is, with the hint delay.
\<close>

definition timerView :: "InteractionManager \<Rightarrow> (nat \<times> nat) list \<times> nat option \<times> nat" where
  "timerView s = (timers s, hintTimer s, nextTimerId s)"



text \<open>The tweens that animate the outline pass's \<open>edgeStrength\<close>, and the two fades.\<close>

definition edgeTween :: "Tween \<Rightarrow> bool" where
  "edgeTween tw \<longleftrightarrow> tw_target tw = OutlineEdgeStrength"

definition fadeIn :: Tween where
  "fadeIn = newTween OutlineEdgeStrength (Scalar 2.0) 2.0 Power1Out NoCallback"

definition fadeOut :: Tween where
  "fadeOut = newTween OutlineEdgeStrength (Scalar 0) 1.0 Power1In HideHintComplete"

text \<open>
  A bystander of the fades: a tween of something other than \<open>edgeStrength\<close> whose
  completion callback is not the one of \<open>hideHint\<close>.  The animation view is what
  the fades read and write.
\<close>

definition bystander :: "Tween \<Rightarrow> bool" where
  "bystander tw \<longleftrightarrow> \<not> edgeTween tw \<and> tw_onComplete tw \<noteq> HideHintComplete"

definition animView :: "InteractionManager \<Rightarrow> OutlinePass option \<times> bool \<times> Tween list" where
  "animView s = (outlinePass s, hintActive s, tweens s)"

text \<open>The outline pass as a completed fade-out leaves it.\<close>

definition settled :: "OutlinePass \<Rightarrow> OutlinePass" where
  "settled pass = pass\<lparr> edgeStrength := 0, enabled := False \<rparr>"

text \<open>Only tweens of \<open>edgeStrength\<close> carry the completion callback of \<open>hideHint\<close>.\<close>

definition callbacksOk :: "Tween list \<Rightarrow> bool" where
  "callbacksOk tws \<longleftrightarrow> (\<forall>tw \<in> set tws. tw_onComplete tw = HideHintComplete \<longrightarrow> edgeTween tw)"

text \<open>An object to click on: the monitor, at its place in \<open>OBJECT_ORIGINS\<close>.\<close>

definition monitorObject :: Object3D where
  "monitorObject =
     \<lparr> obj_id = 0, obj_name = ''monitor'', obj_worldPosition = vector3 0 1 (-1.1), obj_rotation_y = 0 \<rparr>"

section \<open>Properties of the day/night cycle\<close>

lemma scanFrom_None_iff:
  "scanFrom kfs h i = None \<longleftrightarrow> (\<forall>j. i \<le> j \<and> j + 1 < length kfs \<longrightarrow> \<not> (hour (kfs ! j) \<le> h \<and> h < hour (kfs ! (j + 1))))"
proof (induction kfs h i rule: scanFrom.induct)
  case (1 kfs h i)
  show ?case
  proof (cases "i + 1 < length kfs")
    case False
    then show ?thesis by (simp add: scanFrom.simps [of kfs h i])
  next
    case True
    show ?thesis
    proof (cases "h \<ge> hour (kfs ! i) \<and> h < hour (kfs ! (i + 1))")
      case br: True
      with True show ?thesis
        by (auto simp: scanFrom.simps [of kfs h i])
    next
      case nb: False
      have "scanFrom kfs h i = scanFrom kfs h (i + 1)"
        using True nb by (subst scanFrom.simps) auto
      moreover have "(\<forall>j. i \<le> j \<and> j + 1 < length kfs \<longrightarrow> \<not> (hour (kfs ! j) \<le> h \<and> h < hour (kfs ! (j + 1))))
         \<longleftrightarrow> (\<forall>j. i + 1 \<le> j \<and> j + 1 < length kfs \<longrightarrow> \<not> (hour (kfs ! j) \<le> h \<and> h < hour (kfs ! (j + 1))))"
        using nb by (metis Suc_eq_plus1 Suc_leI le_neq_implies_less add_leD1)
      ultimately show ?thesis using "1.IH" [OF True nb] by simp
    qed
  qed
qed

lemma scanFrom_Some:
  "scanFrom kfs h i = Some p \<Longrightarrow>
     \<exists>j. i \<le> j \<and> j + 1 < length kfs \<and> p = (kfs ! j, kfs ! (j + 1)) \<and> hour (kfs ! j) \<le> h \<and> h < hour (kfs ! (j + 1))
        \<and> (\<forall>k. i \<le> k \<and> k < j \<longrightarrow> \<not> (hour (kfs ! k) \<le> h \<and> h < hour (kfs ! (k + 1))))"
proof (induction kfs h i rule: scanFrom.induct)
  case (1 kfs h i)
  show ?case
  proof (cases "i + 1 < length kfs")
    case False
    with "1.prems" show ?thesis by (simp add: scanFrom.simps [of kfs h i])
  next
    case True
    show ?thesis
    proof (cases "h \<ge> hour (kfs ! i) \<and> h < hour (kfs ! (i + 1))")
      case br: True
      with True "1.prems" have "p = (kfs ! i, kfs ! (i + 1))"
        by (simp add: scanFrom.simps [of kfs h i])
      with True br show ?thesis by (intro exI [of _ i]) auto
    next
      case nb: False
      have "scanFrom kfs h (i + 1) = Some p"
        using True nb "1.prems" by (subst (asm) scanFrom.simps) auto
      from "1.IH" [OF True nb this] obtain j where j: "i + 1 \<le> j" "j + 1 < length kfs"
        "p = (kfs ! j, kfs ! (j + 1))" "hour (kfs ! j) \<le> h" "h < hour (kfs ! (j + 1))"
        "\<forall>k. i + 1 \<le> k \<and> k < j \<longrightarrow> \<not> (hour (kfs ! k) \<le> h \<and> h < hour (kfs ! (k + 1)))"
        by blast
      have "\<forall>k. i \<le> k \<and> k < j \<longrightarrow> \<not> (hour (kfs ! k) \<le> h \<and> h < hour (kfs ! (k + 1)))"
      proof (intro allI impI)
        fix k assume k: "i \<le> k \<and> k < j"
        show "\<not> (hour (kfs ! k) \<le> h \<and> h < hour (kfs ! (k + 1)))"
        proof (cases "k = i")
          case True then show ?thesis using nb by simp
        next
          case False
          with k have "i + 1 \<le> k \<and> k < j" by simp
          with j(6) show ?thesis by blast
        qed
      qed
      with j show ?thesis by (intro exI [of _ j]) auto
    qed
  qed
qed



lemma keyframeTable_invariant: "keyframeInvariant keyframeTable"
  by (simp add: keyframeInvariant_def keyframeTable_def keyframe_def)

lemma no_bracket_below:
  assumes nb: "\<forall>j. j + 1 < length kfs \<longrightarrow> \<not> (hour (kfs ! j) \<le> h \<and> h < hour (kfs ! (j + 1)))"
    and first: "hour (kfs ! 0) \<le> h"
  shows "i < length kfs \<Longrightarrow> hour (kfs ! i) \<le> h"
proof (induction i)
  case 0
  then show ?case using first by simp
next
  case (Suc i)
  then have "hour (kfs ! i) \<le> h" by simp
  moreover from Suc.prems nb have "\<not> (hour (kfs ! i) \<le> h \<and> h < hour (kfs ! (i + 1)))" by simp
  ultimately show ?case by simp
qed

lemma scanFrom_finds:
  assumes "kfs \<noteq> []" "hour (kfs ! 0) \<le> h" "h < hour (kfs ! (length kfs - 1))"
  shows "scanFrom kfs h 0 \<noteq> None"
proof
  assume "scanFrom kfs h 0 = None"
  then have "\<forall>j. j + 1 < length kfs \<longrightarrow> \<not> (hour (kfs ! j) \<le> h \<and> h < hour (kfs ! (j + 1)))"
    by (simp add: scanFrom_None_iff)
  from no_bracket_below [OF this assms(2), of "length kfs - 1"] assms(1,3)
  show False by simp
qed

lemma scanFrom_unique:
  assumes sorted: "sorted_wrt (<) (map hour kfs)"
    and i: "i + 1 < length kfs" and lo: "hour (kfs ! i) \<le> h" and hi: "h < hour (kfs ! (i + 1))"
  shows "scanFrom kfs h 0 = Some (kfs ! i, kfs ! (i + 1))"
proof -
  have "scanFrom kfs h 0 \<noteq> None"
    using i lo hi by (auto simp: scanFrom_None_iff)
  then obtain p where p: "scanFrom kfs h 0 = Some p" by auto
  from scanFrom_Some [OF p] obtain j where j: "j + 1 < length kfs" "p = (kfs ! j, kfs ! (j + 1))"
    "hour (kfs ! j) \<le> h" "h < hour (kfs ! (j + 1))"
    "\<forall>k. 0 \<le> k \<and> k < j \<longrightarrow> \<not> (hour (kfs ! k) \<le> h \<and> h < hour (kfs ! (k + 1)))"
    by blast
  have mono: "\<And>a b. a < b \<Longrightarrow> b < length kfs \<Longrightarrow> hour (kfs ! a) < hour (kfs ! b)"
    using sorted by (simp add: sorted_wrt_iff_nth_less)
  have "\<not> i < j" using j(5) lo hi by auto
  moreover have "\<not> j < i"
  proof
    assume "j < i"
    then have "j + 1 \<le> i" by simp
    then have "hour (kfs ! (j + 1)) \<le> hour (kfs ! i)"
      using mono [of "j + 1" i] i by (cases "j + 1 = i") auto
    with j(4) lo show False by simp
  qed
  ultimately have "j = i" by simp
  with p j(2) show ?thesis by simp
qed

lemma findInterval_bracket:
  assumes "sorted_wrt (<) (map hour kfs)"
    and "i + 1 < length kfs" and "hour (kfs ! i) \<le> h" and "h < hour (kfs ! (i + 1))"
  shows "findInterval kfs h = Inr (kfs ! i, kfs ! (i + 1))"
  using scanFrom_unique [OF assms] assms(2) by (auto simp: findInterval_def)

lemma keyframeTable_sorted: "sorted_wrt (<) (map hour keyframeTable)"
  by (simp add: keyframeTable_def keyframe_def)

lemma keyframeTable_length: "length keyframeTable = 8"
  by (simp add: keyframeTable_def)

lemma below_seven: "i < (7::nat) \<Longrightarrow> i = 0 \<or> i = 1 \<or> i = 2 \<or> i = 3 \<or> i = 4 \<or> i = 5 \<or> i = 6"
  by arith

lemma updateDayNightCycleAt_bracket:
  assumes main: "lights_main s = Some m"
    and sorted: "sorted_wrt (<) (map hour (dayNightKeyframes s))"
    and i: "i + 1 < length (dayNightKeyframes s)"
    and lo: "hour (dayNightKeyframes s ! i) \<le> t" and hi: "t < hour (dayNightKeyframes s ! (i + 1))"
  shows "updateDayNightCycleAt t s =
           Inr (applyFrames m (dayNightKeyframes s ! i) (dayNightKeyframes s ! (i + 1))
                  ((t - hour (dayNightKeyframes s ! i)) /
                   (hour (dayNightKeyframes s ! (i + 1)) - hour (dayNightKeyframes s ! i))) s)"
proof -
  have "hour (dayNightKeyframes s ! (i + 1)) - hour (dayNightKeyframes s ! i) \<noteq> 0"
    using lo hi by simp
  then show ?thesis
    using findInterval_bracket [OF sorted i lo hi] main
    by (simp add: updateDayNightCycleAt_def factor_def)
qed


lemma keyframeTable_colors:
  "map (\<lambda>k. setHex (color k)) keyframeTable =
     [\<lparr> col_r = 0x1a / 255, col_g = 0x1a / 255, col_b = 0x2e / 255 \<rparr>,
      \<lparr> col_r = 0x2a / 255, col_g = 0x2a / 255, col_b = 0x4e / 255 \<rparr>,
      \<lparr> col_r = 0xff / 255, col_g = 0xaa / 255, col_b = 0x77 / 255 \<rparr>,
      \<lparr> col_r = 0xff / 255, col_g = 0xee / 255, col_b = 0xdd / 255 \<rparr>,
      \<lparr> col_r = 0xff / 255, col_g = 0xee / 255, col_b = 0xdd / 255 \<rparr>,
      \<lparr> col_r = 0xff / 255, col_g = 0x99 / 255, col_b = 0x66 / 255 \<rparr>,
      \<lparr> col_r = 0x1a / 255, col_g = 0x1a / 255, col_b = 0x2e / 255 \<rparr>,
      \<lparr> col_r = 0x1a / 255, col_g = 0x1a / 255, col_b = 0x2e / 255 \<rparr>]"
  by (simp add: keyframeTable_def keyframe_def setHex_def)

lemma blend_bytes:
  "a / 255 + (b / 255 - a / 255) * (x / d) = (a + (b - a) * x / d) / (255::real)"
proof -
  have "(b / 255 - a / 255) * (x / d) = ((b - a) * x / d) / 255"
    by (simp add: diff_divide_distrib [symmetric])
  then show ?thesis
    by (simp add: add_divide_distrib)
qed

text \<open>
  Claim C1.  Let \<open>t\<close> be the hour the clock shows, hours plus minutes over 60, and
  let the table be the constructor's, whose hours, intensities and colour bytes are
  written out below.  When \<open>t\<close> lies between two neighbouring keyframe hours, with
  a sun light present \<open>updateDayNightCycle\<close> sets the sun's intensity to the linear
  interpolation of the two stored intensities and each colour channel to the linear
  interpolation of the two stored bytes over 255, with the same factor; such a \<open>t\<close>
  lies in \<open>[0, 24)\<close>.  At a keyframe's own hour the result is that keyframe's
  stored intensity and colour.  At 6:00 the intensity is 0.6 and the colour is half
  way between \<open>0x2a2a4e\<close> and \<open>0xffaa77\<close>.
\<close>

theorem sun_interpolates_between_keyframes:
  fixes now :: Date and t :: real and H I R G B :: "real list"
  defines "t \<equiv> real (getHours now) + real (getMinutes now) / 60"
    and "H \<equiv> [0, 5, 7, 10, 16, 19, 21, 24]"
    and "I \<equiv> [0.3, 0.4, 0.8, 1.2, 1.1, 0.7, 0.35, 0.3]"
    and "R \<equiv> [0x1a, 0x2a, 0xff, 0xff, 0xff, 0xff, 0x1a, 0x1a]"
    and "G \<equiv> [0x1a, 0x2a, 0xaa, 0xee, 0xee, 0x99, 0x1a, 0x1a]"
    and "B \<equiv> [0x2e, 0x4e, 0x77, 0xdd, 0xdd, 0x66, 0x2e, 0x2e]"
  assumes main: "lights_main s = Some m"
    and table: "dayNightKeyframes s = dayNightKeyframes constructor"
    and i: "i + 1 < 8"
    and lo: "H ! i \<le> t" and hi: "t < H ! (i + 1)"
  shows "\<exists>s' sun. updateDayNightCycle now s = Inr s' \<and> lights_main s' = Some sun \<and>
           light_intensity sun = I ! i + (I ! (i + 1) - I ! i) * (t - H ! i) / (H ! (i + 1) - H ! i) \<and>
           col_r (light_color sun) =
             (R ! i + (R ! (i + 1) - R ! i) * (t - H ! i) / (H ! (i + 1) - H ! i)) / 255 \<and>
           col_g (light_color sun) =
             (G ! i + (G ! (i + 1) - G ! i) * (t - H ! i) / (H ! (i + 1) - H ! i)) / 255 \<and>
           col_b (light_color sun) =
             (B ! i + (B ! (i + 1) - B ! i) * (t - H ! i) / (H ! (i + 1) - H ! i)) / 255 \<and>
           0 \<le> t \<and> t < 24 \<and>
           (t = H ! i \<longrightarrow>
              light_intensity sun = I ! i \<and>
              light_color sun = \<lparr> col_r = R ! i / 255, col_g = G ! i / 255, col_b = B ! i / 255 \<rparr>) \<and>
           (getHours now = 6 \<and> getMinutes now = 0 \<longrightarrow>
              light_intensity sun = 0.6 \<and>
              light_color sun = \<lparr> col_r = 297 / 510, col_g = 212 / 510, col_b = 197 / 510 \<rparr>)"
proof -
  have tab: "dayNightKeyframes s = keyframeTable"
    using table by (simp add: constructor_def)
  have cases: "i = 0 \<or> i = 1 \<or> i = 2 \<or> i = 3 \<or> i = 4 \<or> i = 5 \<or> i = 6"
    using i by (intro below_seven) simp
  have hours: "map hour keyframeTable = H"
    by (simp add: keyframeTable_def keyframe_def H_def)
  have levels: "map intensity keyframeTable = I"
    by (simp add: keyframeTable_def keyframe_def I_def)
  have len: "i < length keyframeTable" "i + 1 < length keyframeTable"
    using i by (simp_all add: keyframeTable_length)
  have h: "hour (keyframeTable ! i) = H ! i" "hour (keyframeTable ! (i + 1)) = H ! (i + 1)"
    using len nth_map [of _ keyframeTable hour] hours by metis+
  have v: "intensity (keyframeTable ! i) = I ! i" "intensity (keyframeTable ! (i + 1)) = I ! (i + 1)"
    using len nth_map [of _ keyframeTable intensity] levels by metis+
  let ?k = "keyframeTable ! i" and ?k' = "keyframeTable ! (i + 1)"
  let ?f = "(t - H ! i) / (H ! (i + 1) - H ! i)"
  let ?s' = "applyFrames m ?k ?k' ?f s"
  let ?sun = "m\<lparr> light_color := lerp (setHex (color ?k)) (setHex (color ?k')) ?f,
                  light_intensity := I ! i + (I ! (i + 1) - I ! i) * ?f \<rparr>"
  have "updateDayNightCycleAt t s = Inr ?s'"
    using updateDayNightCycleAt_bracket [of s m i t] main tab len lo hi keyframeTable_sorted h
    by simp
  then have run: "updateDayNightCycle now s = Inr ?s'"
    by (simp add: updateDayNightCycle_def hourOf_def t_def)
  have sun: "lights_main ?s' = Some ?sun"
    using v by (simp add: applyFrames_def Let_def)
  have range: "0 \<le> t \<and> t < 24"
    using cases lo hi by (auto simp: H_def)
  have c: "setHex (color ?k) = \<lparr> col_r = R ! i / 255, col_g = G ! i / 255, col_b = B ! i / 255 \<rparr>"
    "setHex (color ?k') =
       \<lparr> col_r = R ! (i + 1) / 255, col_g = G ! (i + 1) / 255, col_b = B ! (i + 1) / 255 \<rparr>"
    using cases nth_map [of i keyframeTable "\<lambda>k. setHex (color k)"]
      nth_map [of "i + 1" keyframeTable "\<lambda>k. setHex (color k)"] len
    unfolding keyframeTable_colors
    by (auto simp: R_def G_def B_def)
  have blend: "col_r (light_color ?sun) = (R ! i + (R ! (i + 1) - R ! i) * (t - H ! i) / (H ! (i + 1) - H ! i)) / 255"
    "col_g (light_color ?sun) = (G ! i + (G ! (i + 1) - G ! i) * (t - H ! i) / (H ! (i + 1) - H ! i)) / 255"
    "col_b (light_color ?sun) = (B ! i + (B ! (i + 1) - B ! i) * (t - H ! i) / (H ! (i + 1) - H ! i)) / 255"
    using c by (simp_all add: lerp_def blend_bytes)
  have at_key: "t = H ! i \<longrightarrow>
      light_intensity ?sun = I ! i \<and>
      light_color ?sun = \<lparr> col_r = R ! i / 255, col_g = G ! i / 255, col_b = B ! i / 255 \<rparr>"
    using c by (simp add: lerp_def)
  have one: "i = 1" if "getHours now = 6" "getMinutes now = 0"
    using cases lo hi that by (auto simp: H_def t_def)
  have six: "getHours now = 6 \<and> getMinutes now = 0 \<longrightarrow>
      light_intensity ?sun = 0.6 \<and>
      light_color ?sun = \<lparr> col_r = 297 / 510, col_g = 212 / 510, col_b = 197 / 510 \<rparr>"
  proof (intro impI)
    assume a: "getHours now = 6 \<and> getMinutes now = 0"
    then have i1: "i = 1" using one by simp
    have t6: "t = 6" using a by (simp add: t_def)
    show "light_intensity ?sun = 0.6 \<and>
      light_color ?sun = \<lparr> col_r = 297 / 510, col_g = 212 / 510, col_b = 197 / 510 \<rparr>"
      using c by (simp add: i1 t6 lerp_def H_def I_def R_def G_def B_def)
  qed
  show ?thesis
    apply (intro exI [of _ ?s'] exI [of _ ?sun])
    using run sun range at_key six blend by simp
qed



theorem sun_interpolates_between_keyframes_witness:
  "lights_main (setupLights 1024 constructor) \<noteq> None \<and>
   dayNightKeyframes (setupLights 1024 constructor) = dayNightKeyframes constructor \<and>
   (\<exists>s' sun. updateDayNightCycle \<lparr> getHours = 6, getMinutes = 0 \<rparr> (setupLights 1024 constructor) = Inr s' \<and>
      lights_main s' = Some sun \<and> light_intensity sun = 0.6 \<and>
      light_color sun = \<lparr> col_r = 297 / 510, col_g = 212 / 510, col_b = 197 / 510 \<rparr>) \<and>
   (\<exists>s' sun. updateDayNightCycle \<lparr> getHours = 12, getMinutes = 30 \<rparr> (setupLights 1024 constructor) = Inr s' \<and>
      lights_main s' = Some sun \<and> light_intensity sun = 1.2 + (1.1 - 1.2) * (12.5 - 10) / (16 - 10))"
proof -
  let ?s = "setupLights 1024 constructor"
  let ?m = "(light 0xffeedd 0.22 (vector3 (-5) 8 3))\<lparr> light_shadowMapSize := Some 4096 \<rparr>"
  have main: "lights_main ?s = Some ?m"
    by (simp add: setupLights_def Let_def)
  have table: "dayNightKeyframes ?s = dayNightKeyframes constructor"
    by (simp add: setupLights_def Let_def)
  have six: "\<exists>s' sun. updateDayNightCycle \<lparr> getHours = 6, getMinutes = 0 \<rparr> ?s = Inr s' \<and>
      lights_main s' = Some sun \<and> light_intensity sun = 0.6 \<and>
      light_color sun = \<lparr> col_r = 297 / 510, col_g = 212 / 510, col_b = 197 / 510 \<rparr>"
    using sun_interpolates_between_keyframes [OF main table, of 1 "\<lparr> getHours = 6, getMinutes = 0 \<rparr>"]
    by simp blast
  have noon: "\<exists>s' sun. updateDayNightCycle \<lparr> getHours = 12, getMinutes = 30 \<rparr> ?s = Inr s' \<and>
      lights_main s' = Some sun \<and> light_intensity sun = 1.2 + (1.1 - 1.2) * (12.5 - 10) / (16 - 10)"
    using sun_interpolates_between_keyframes [OF main table, of 3 "\<lparr> getHours = 12, getMinutes = 30 \<rparr>"]
    by simp blast
  from main table six noon show ?thesis by simp
qed

lemma scan_brackets:
  assumes inv: "keyframeInvariant kfs" and t: "0 \<le> t" "t < 24"
  shows "\<exists>i. i + 1 < length kfs \<and> findInterval kfs t = Inr (kfs ! i, kfs ! (i + 1)) \<and>
             hour (kfs ! i) \<le> t \<and> t < hour (kfs ! (i + 1))"
proof -
  from inv have ne: "kfs \<noteq> []" and first: "hour (kfs ! 0) = 0"
    and last: "hour (kfs ! (length kfs - 1)) = 24"
    by (simp_all add: keyframeInvariant_def)
  have "scanFrom kfs t 0 \<noteq> None"
    using scanFrom_finds [OF ne] first last t by simp
  then obtain p where p: "scanFrom kfs t 0 = Some p" by auto
  from scanFrom_Some [OF p] obtain i where i: "i + 1 < length kfs" "p = (kfs ! i, kfs ! (i + 1))"
    "hour (kfs ! i) \<le> t" "t < hour (kfs ! (i + 1))"
    by blast
  have "findInterval kfs t = Inr (kfs ! i, kfs ! (i + 1))"
    using p i(2) ne by (simp add: findInterval_def)
  with i show ?thesis by blast
qed

lemma updateDayNightCycleAt_returns:
  assumes inv: "keyframeInvariant (dayNightKeyframes s)" and t: "0 \<le> t" "t < 24"
  shows "\<exists>s'. updateDayNightCycleAt t s = Inr s'"
proof -
  from scan_brackets [OF inv t] obtain i where
    "findInterval (dayNightKeyframes s) t = Inr (dayNightKeyframes s ! i, dayNightKeyframes s ! (i + 1))"
    "hour (dayNightKeyframes s ! i) \<le> t" "t < hour (dayNightKeyframes s ! (i + 1))"
    by blast
  then show ?thesis
    by (simp add: updateDayNightCycleAt_def factor_def split: option.split)
qed

text \<open>
  Claim C8.  When the table of a lighting system satisfies the invariant (hours
  strictly increasing, first hour 0, last hour 24), at every hour \<open>t\<close> in
  \<open>[0, 24)\<close> the scan selects a neighbouring pair that brackets \<open>t\<close>; the hour
  difference of that pair is not zero, the factor is the quotient of line 327, and
  the update returns a state.
\<close>

theorem scan_never_divides_by_zero:
  assumes inv: "keyframeInvariant (dayNightKeyframes s)" and t: "0 \<le> t" "t < 24"
  shows "\<exists>i. i + 1 < length (dayNightKeyframes s) \<and>
             findInterval (dayNightKeyframes s) t =
               Inr (dayNightKeyframes s ! i, dayNightKeyframes s ! (i + 1)) \<and>
             hour (dayNightKeyframes s ! i) \<le> t \<and> t < hour (dayNightKeyframes s ! (i + 1)) \<and>
             hour (dayNightKeyframes s ! (i + 1)) - hour (dayNightKeyframes s ! i) \<noteq> 0 \<and>
             factor t (dayNightKeyframes s ! i) (dayNightKeyframes s ! (i + 1)) =
               Inr ((t - hour (dayNightKeyframes s ! i)) /
                    (hour (dayNightKeyframes s ! (i + 1)) - hour (dayNightKeyframes s ! i))) \<and>
             (\<exists>s'. updateDayNightCycleAt t s = Inr s')"
proof -
  let ?kfs = "dayNightKeyframes s"
  from scan_brackets [OF inv t] obtain i where i: "i + 1 < length ?kfs"
    "findInterval ?kfs t = Inr (?kfs ! i, ?kfs ! (i + 1))"
    "hour (?kfs ! i) \<le> t" "t < hour (?kfs ! (i + 1))"
    by blast
  have diff: "hour (?kfs ! (i + 1)) - hour (?kfs ! i) \<noteq> 0"
    using i(3,4) by simp
  from updateDayNightCycleAt_returns [OF inv t] i diff show ?thesis
    by (intro exI [of _ i]) (simp add: factor_def)
qed

theorem scan_never_divides_by_zero_witness:
  "keyframeInvariant (dayNightKeyframes constructor) \<and>
   (\<exists>i. i + 1 < length (dayNightKeyframes constructor) \<and>
      findInterval (dayNightKeyframes constructor) 6 =
        Inr (dayNightKeyframes constructor ! i, dayNightKeyframes constructor ! (i + 1)) \<and>
      hour (dayNightKeyframes constructor ! (i + 1)) - hour (dayNightKeyframes constructor ! i) \<noteq> 0)"
proof -
  have inv: "keyframeInvariant (dayNightKeyframes constructor)"
    by (simp add: constructor_def keyframeTable_invariant)
  from scan_never_divides_by_zero [OF inv, of 6] inv show ?thesis
    by auto
qed

lemma setWindowIntensity_idem:
  "setWindowIntensity v (setWindowIntensity v material) = setWindowIntensity v material"
  by (simp add: setWindowIntensity_def)

lemma applyFrames_idem:
  "applyFrames (m\<lparr> light_color := c, light_intensity := v \<rparr>) a b f (applyFrames m a b f s) =
     applyFrames m a b f s"
  if "c = lerp (setHex (color a)) (setHex (color b)) f"
    and "v = intensity a + (intensity b - intensity a) * f"
  using that
  by (cases "lights_ambient s"; cases "lights_hemisphere s")
     (simp_all add: applyFrames_def Let_def setWindowIntensity_idem comp_def)

lemma applyFrames_main:
  "lights_main (applyFrames m a b f s) =
     Some (m\<lparr> light_color := lerp (setHex (color a)) (setHex (color b)) f,
              light_intensity := intensity a + (intensity b - intensity a) * f \<rparr>)"
  by (simp add: applyFrames_def Let_def)

lemma applyFrames_table: "dayNightKeyframes (applyFrames m a b f s) = dayNightKeyframes s"
  by (simp add: applyFrames_def Let_def)

text \<open>
  Claim C7.  A day/night update that returns, run again at the same hour on the
  state it produced, returns that same state: sun colour and intensity, ambient and
  hemisphere intensity and every glare material's window slot are as after the first
  run, and so is everything else.
\<close>

theorem updateDayNightCycle_idempotent:
  assumes "updateDayNightCycleAt t s = Inr s'"
  shows "updateDayNightCycleAt t s' = Inr s'"
proof (cases "lights_main s")
  case None
  with assms show ?thesis by (simp add: updateDayNightCycleAt_def)
next
  case (Some m)
  from assms Some obtain a b f where
    found: "findInterval (dayNightKeyframes s) t = Inr (a, b)"
    and fac: "factor t a b = Inr f"
    and s': "s' = applyFrames m a b f s"
    by (auto simp: updateDayNightCycleAt_def split: sum.splits prod.splits)
  show ?thesis
    using found fac
    by (simp add: updateDayNightCycleAt_def s' applyFrames_main applyFrames_table applyFrames_idem)
qed

theorem updateDayNightCycle_idempotent_witness:
  "\<exists>s'. updateDayNightCycleAt 6 (setupLights 1024 constructor) = Inr s' \<and>
        updateDayNightCycleAt 6 s' = Inr s' \<and> lights_main s' \<noteq> None"
proof -
  have "keyframeInvariant (dayNightKeyframes (setupLights 1024 constructor))"
    by (simp add: setupLights_def Let_def constructor_def keyframeTable_invariant)
  from updateDayNightCycleAt_returns [OF this, of 6]
  obtain s' where s': "updateDayNightCycleAt 6 (setupLights 1024 constructor) = Inr s'"
    by auto
  then have "lights_main s' \<noteq> None"
    by (auto simp: updateDayNightCycleAt_def setupLights_def Let_def applyFrames_main
             split: sum.splits prod.splits)
  with s' updateDayNightCycle_idempotent [OF s'] show ?thesis by blast
qed

lemma applyFrames_glare:
  "glareMaterials (applyFrames m a b f s) =
     map (setWindowIntensity (intensity a + (intensity b - intensity a) * f)) (glareMaterials s)"
  by (simp add: applyFrames_def Let_def)

lemma newGlareUniforms_wf: "glareWellFormed (newGlareUniforms options)"
  by (simp add: glareWellFormed_def newGlareUniforms_def)

lemma hourOf_range:
  assumes "getHours now < 24" "getMinutes now < 60"
  shows "0 \<le> hourOf now \<and> hourOf now < 24"
proof -
  have "real (getHours now) \<le> 23" using assms(1) by simp
  moreover have "real (getMinutes now) / 60 < 1" using assms(2) by simp
  ultimately show ?thesis by (simp add: hourOf_def)
qed

text \<open>
  Claim C9.  With a sun light present, a table that satisfies the invariant, a
  valid clock reading and glare materials whose uniform arrays have their four
  entries, \<open>update\<close> returns a state in which every registered glare material has
  the camera's position as its camera uniform and the sun's new intensity in slot 0,
  while its light positions, its light colours and its slots 1 to 3 are as before.
\<close>

theorem update_refreshes_glare_uniforms:
  assumes main: "lights_main s = Some m"
    and inv: "keyframeInvariant (dayNightKeyframes s)"
    and clock: "getHours now < 24" "getMinutes now < 60"
    and wf: "\<forall>material \<in> set (glareMaterials s). glareWellFormed material"
  shows "\<exists>s' sun. update now camera s = Inr s' \<and> lights_main s' = Some sun \<and>
           length (glareMaterials s') = length (glareMaterials s) \<and>
           (\<forall>j < length (glareMaterials s).
              uCameraPosition (glareMaterials s' ! j) = position camera \<and>
              uLightIntensities (glareMaterials s' ! j) ! 0 = light_intensity sun \<and>
              uLightPositions (glareMaterials s' ! j) = uLightPositions (glareMaterials s ! j) \<and>
              uLightColors (glareMaterials s' ! j) = uLightColors (glareMaterials s ! j) \<and>
              length (uLightIntensities (glareMaterials s' ! j)) = 4 \<and>
              uLightIntensities (glareMaterials s' ! j) ! 1 = uLightIntensities (glareMaterials s ! j) ! 1 \<and>
              uLightIntensities (glareMaterials s' ! j) ! 2 = uLightIntensities (glareMaterials s ! j) ! 2 \<and>
              uLightIntensities (glareMaterials s' ! j) ! 3 = uLightIntensities (glareMaterials s ! j) ! 3)"
proof -
  from hourOf_range [OF clock] have t: "0 \<le> hourOf now" "hourOf now < 24" by simp_all
  from updateDayNightCycleAt_returns [OF inv t] obtain s1 where
    s1: "updateDayNightCycleAt (hourOf now) s = Inr s1" by blast
  with main obtain a b f where s1_eq: "s1 = applyFrames m a b f s"
    by (auto simp: updateDayNightCycleAt_def split: sum.splits prod.splits)
  let ?v = "intensity a + (intensity b - intensity a) * f"
  let ?sun = "m\<lparr> light_color := lerp (setHex (color a)) (setHex (color b)) f, light_intensity := ?v \<rparr>"
  let ?s' = "updateGlare camera s1"
  have run: "update now camera s = Inr ?s'"
    using s1 by (simp add: update_def updateDayNightCycle_def)
  have sun: "lights_main ?s' = Some ?sun"
    by (simp add: updateGlare_def s1_eq applyFrames_main)
  have mats: "glareMaterials ?s' =
      map (\<lambda>material. (setWindowIntensity ?v material)\<lparr> uCameraPosition := position camera \<rparr>)
        (glareMaterials s)"
    by (simp add: updateGlare_def s1_eq applyFrames_glare comp_def)
  have each: "uCameraPosition (glareMaterials ?s' ! j) = position camera \<and>
              uLightIntensities (glareMaterials ?s' ! j) ! 0 = light_intensity ?sun \<and>
              uLightPositions (glareMaterials ?s' ! j) = uLightPositions (glareMaterials s ! j) \<and>
              uLightColors (glareMaterials ?s' ! j) = uLightColors (glareMaterials s ! j) \<and>
              length (uLightIntensities (glareMaterials ?s' ! j)) = 4 \<and>
              uLightIntensities (glareMaterials ?s' ! j) ! 1 = uLightIntensities (glareMaterials s ! j) ! 1 \<and>
              uLightIntensities (glareMaterials ?s' ! j) ! 2 = uLightIntensities (glareMaterials s ! j) ! 2 \<and>
              uLightIntensities (glareMaterials ?s' ! j) ! 3 = uLightIntensities (glareMaterials s ! j) ! 3"
    if j: "j < length (glareMaterials s)" for j
  proof -
    from wf j have "length (uLightIntensities (glareMaterials s ! j)) = 4"
      by (simp add: glareWellFormed_def)
    then show ?thesis
      using j by (simp add: mats setWindowIntensity_def)
  qed
  have len: "length (glareMaterials ?s') = length (glareMaterials s)"
    by (simp add: mats)
  show ?thesis
    using run sun len each by blast
qed


theorem update_refreshes_glare_uniforms_witness:
  "glareMaterials (snd (createGlareMaterial \<lparr> opt_glareIntensity = None, opt_glareSharpness = None,
       opt_fresnelPower = None \<rparr> (setupLights 1024 constructor))) \<noteq> [] \<and>
   (\<exists>s' sun.
      update \<lparr> getHours = 6, getMinutes = 0 \<rparr> \<lparr> position = vector3 0 3 5 \<rparr>
        (snd (createGlareMaterial \<lparr> opt_glareIntensity = None, opt_glareSharpness = None,
           opt_fresnelPower = None \<rparr> (setupLights 1024 constructor))) = Inr s' \<and>
      lights_main s' = Some sun \<and>
      uCameraPosition (glareMaterials s' ! 0) = vector3 0 3 5 \<and>
      uLightIntensities (glareMaterials s' ! 0) ! 0 = light_intensity sun \<and>
      uLightIntensities (glareMaterials s' ! 0) ! 1 = 0.8)"
proof -
  let ?opts = "\<lparr> opt_glareIntensity = None, opt_glareSharpness = None, opt_fresnelPower = None \<rparr>"
  let ?s = "snd (createGlareMaterial ?opts (setupLights 1024 constructor))"
  let ?m = "(light 0xffeedd 0.22 (vector3 (-5) 8 3))\<lparr> light_shadowMapSize := Some 4096 \<rparr>"
  have mats: "glareMaterials ?s = [newGlareUniforms ?opts]"
    by (simp add: createGlareMaterial_def setupLights_def constructor_def Let_def)
  have main: "lights_main ?s = Some ?m"
    by (simp add: createGlareMaterial_def setupLights_def Let_def)
  have inv: "keyframeInvariant (dayNightKeyframes ?s)"
    by (simp add: createGlareMaterial_def setupLights_def constructor_def Let_def keyframeTable_invariant)
  have clock: "getHours \<lparr> getHours = 6, getMinutes = 0 \<rparr> < 24"
      "getMinutes \<lparr> getHours = 6, getMinutes = 0 \<rparr> < 60"
    by simp_all
  have wf: "\<forall>material \<in> set (glareMaterials ?s). glareWellFormed material"
    by (simp add: mats newGlareUniforms_wf)
  from update_refreshes_glare_uniforms [OF main inv clock wf, of "\<lparr> position = vector3 0 3 5 \<rparr>"]
  obtain s' sun where r: "update \<lparr> getHours = 6, getMinutes = 0 \<rparr> \<lparr> position = vector3 0 3 5 \<rparr> ?s = Inr s'"
    "lights_main s' = Some sun"
    "\<forall>j < length (glareMaterials ?s).
       uCameraPosition (glareMaterials s' ! j) = position \<lparr> position = vector3 0 3 5 \<rparr> \<and>
       uLightIntensities (glareMaterials s' ! j) ! 0 = light_intensity sun \<and>
       uLightIntensities (glareMaterials s' ! j) ! 1 = uLightIntensities (glareMaterials ?s ! j) ! 1"
    by blast
  from r(3) mats have "uCameraPosition (glareMaterials s' ! 0) = vector3 0 3 5 \<and>
       uLightIntensities (glareMaterials s' ! 0) ! 0 = light_intensity sun \<and>
       uLightIntensities (glareMaterials s' ! 0) ! 1 = 0.8"
    by (simp add: newGlareUniforms_def)
  with r(1,2) mats show ?thesis
    by (intro conjI exI [of _ s'] exI [of _ sun]) simp_all
qed

text \<open>
  Claim C6, as stated, fails: a table with a duplicated hour passes \<open>init\<close>, and
  the first update at 6 o'clock then divides by zero.
\<close>

theorem init_accepts_malformed_table:
  "\<not> sorted_wrt (<) (map hour [keyframe 12 0xffeedd 1.2, keyframe 12 0x1a1a2e 0.3]) \<and>
   init 1024 (constructor\<lparr> dayNightKeyframes := [keyframe 12 0xffeedd 1.2, keyframe 12 0x1a1a2e 0.3] \<rparr>) =
     Inr (setupLights 1024 (createEnvironmentMap
            (constructor\<lparr> dayNightKeyframes := [keyframe 12 0xffeedd 1.2, keyframe 12 0x1a1a2e 0.3] \<rparr>))) \<and>
   updateDayNightCycleAt 6
     (setupLights 1024 (createEnvironmentMap
        (constructor\<lparr> dayNightKeyframes := [keyframe 12 0xffeedd 1.2, keyframe 12 0x1a1a2e 0.3] \<rparr>))) =
     Inl NonFinite"
proof -
  have "scanFrom [keyframe 12 0xffeedd 1.2, keyframe 12 0x1a1a2e 0.3] 6 0 = None"
    by (simp add: scanFrom.simps [of _ _ 0] scanFrom.simps [of _ _ "Suc 0"] keyframe_def)
  then show ?thesis
    by (simp add: init_def setupLights_def createEnvironmentMap_def constructor_def Let_def
        updateDayNightCycleAt_def findInterval_def factor_def keyframe_def)
qed

text \<open>
  Claim C6, amended.  \<open>init\<close> performs no check of the keyframe table: it succeeds
  whatever the table holds and leaves the table as it is.  The table the constructor
  builds satisfies the invariant, and its last keyframe repeats the colour and the
  intensity of the first.
\<close>

theorem init_never_checks_table:
  "init innerWidth s = Inr (setupLights innerWidth (createEnvironmentMap s)) \<and>
   dayNightKeyframes (setupLights innerWidth (createEnvironmentMap s)) = dayNightKeyframes s \<and>
   keyframeInvariant (dayNightKeyframes constructor) \<and>
   color (last (dayNightKeyframes constructor)) = color (hd (dayNightKeyframes constructor)) \<and>
   intensity (last (dayNightKeyframes constructor)) = intensity (hd (dayNightKeyframes constructor))"
  by (simp add: init_def setupLights_def createEnvironmentMap_def Let_def constructor_def
      keyframeTable_def keyframe_def keyframeInvariant_def)

section \<open>Properties of the glare shader and the overlay material\<close>

lemma clamp_bounds:
  assumes "lo \<le> hi"
  shows "lo \<le> clamp a lo hi" and "clamp a lo hi \<le> hi"
  using assms unfolding clamp_def by linarith+

lemma fragmentShader_alpha:
  "\<exists>a. frag_alpha (fragmentShader u vWorldPosition vWorldNormal) = clamp a 0 0.7"
  unfolding fragmentShader_def Let_def by (rule exI) simp

text \<open>
  Claim C2.  Whatever the uniforms (camera position, tuning knobs, the contents of
  the light slots), the surface point and the surface normal, the alpha the glare
  fragment shader outputs lies between 0 and 0.7.
\<close>

theorem glare_alpha_in_range:
  "0 \<le> frag_alpha (fragmentShader u vWorldPosition vWorldNormal) \<and>
   frag_alpha (fragmentShader u vWorldPosition vWorldNormal) \<le> 0.7"
proof -
  obtain a where "frag_alpha (fragmentShader u vWorldPosition vWorldNormal) = clamp a 0 0.7"
    using fragmentShader_alpha by blast
  then show ?thesis
    using clamp_bounds [of 0 "0.7" a] by simp
qed

lemma overlay_dom:
  "dom (uniforms overlayMaterial) =
     {''maskTexture'', ''edgeTexture1'', ''edgeTexture2'', ''patternTexture'',
      ''edgeStrength'', ''edgeGlow'', ''usePatternTexture''}"
  by (auto simp: overlayMaterial_def split: if_splits)

lemma renderWrites_names:
  "map fst (renderWrites pass maskBuffer edgeBuffer1 blurBuffer2) =
     [''maskTexture'', ''edgeTexture1'', ''edgeTexture2'', ''patternTexture'',
      ''edgeStrength'', ''edgeGlow'', ''usePatternTexture'']"
  by (simp add: renderWrites_def)

lemma overlay_assign:
  "assignUniforms (renderWrites pass maskBuffer edgeBuffer1 blurBuffer2) (uniforms overlayMaterial) =
     Inr [''maskTexture'' \<mapsto> Sampler maskBuffer,
          ''edgeTexture1'' \<mapsto> Sampler edgeBuffer1,
          ''edgeTexture2'' \<mapsto> Sampler blurBuffer2,
          ''patternTexture'' \<mapsto> (case patternTexture pass of None \<Rightarrow> Null | Some tex \<Rightarrow> Sampler tex),
          ''edgeStrength'' \<mapsto> Float (edgeStrength pass),
          ''edgeGlow'' \<mapsto> Float (edgeGlow pass),
          ''usePatternTexture'' \<mapsto> Flag (usePatternTexture pass)]"
  by (simp add: renderWrites_def overlayMaterial_def fun_upd_twist)

lemma overlayFragment_ignores:
  "overlayFragment (us(''maskTexture'' \<mapsto> v)) = overlayFragment us"
  "overlayFragment (us(''patternTexture'' \<mapsto> v)) = overlayFragment us"
  "overlayFragment (us(''usePatternTexture'' \<mapsto> v)) = overlayFragment us"
  by (simp_all add: overlayFragment_def fun_eq_iff)

text \<open>
  Claim C3.  The outline pass closes the chain of passes, after the base render and
  the bloom.  The material installed on it is the replacement; it
  declares exactly the seven uniforms the render step assigns, so the assignment
  goes through; the colour it then gives at a pixel is \<open>edgeStrength\<close> times the sum
  of the first edge texture and \<open>edgeGlow\<close> times the second, whatever the mask
  texture holds; its fragment program does not depend on the mask, the pattern
  texture or the pattern switch; blending is additive, depth test and depth write
  are off.
\<close>

theorem overlay_material_as_installed:
  "setupPostProcessing True True =
     Some [RenderPass, UnrealBloomPass 0.3 0.5 0.8, Outline newOutlinePass] \<and>
   passMaterial newOutlinePass = overlayMaterial \<and>
   dom (uniforms overlayMaterial) =
     {''maskTexture'', ''edgeTexture1'', ''edgeTexture2'', ''patternTexture'',
      ''edgeStrength'', ''edgeGlow'', ''usePatternTexture''} \<and>
   set (map fst (renderWrites pass maskBuffer edgeBuffer1 blurBuffer2)) = dom (uniforms overlayMaterial) \<and>
   renderOverlay (pass\<lparr> passMaterial := overlayMaterial \<rparr>) maskBuffer edgeBuffer1 blurBuffer2 vUv =
     Inr (Some (scale4 (add4 (edgeBuffer1 vUv) (scale4 (blurBuffer2 vUv) (edgeGlow pass))) (edgeStrength pass))) \<and>
   fragmentProgram overlayMaterial (us(''maskTexture'' \<mapsto> v)) = fragmentProgram overlayMaterial us \<and>
   fragmentProgram overlayMaterial (us(''patternTexture'' \<mapsto> v)) = fragmentProgram overlayMaterial us \<and>
   fragmentProgram overlayMaterial (us(''usePatternTexture'' \<mapsto> v)) = fragmentProgram overlayMaterial us \<and>
   blending overlayMaterial = AdditiveBlending \<and>
   depthTest overlayMaterial = False \<and> depthWrite overlayMaterial = False"
proof -
  have chain: "setupPostProcessing True True =
      Some [RenderPass, UnrealBloomPass 0.3 0.5 0.8, Outline newOutlinePass]"
    by (simp add: setupPostProcessing_def)
  have installed: "passMaterial newOutlinePass = overlayMaterial"
    by (simp add: newOutlinePass_def)
  have names: "set (map fst (renderWrites pass maskBuffer edgeBuffer1 blurBuffer2)) = dom (uniforms overlayMaterial)"
    unfolding renderWrites_names overlay_dom by simp
  have prog: "fragmentProgram overlayMaterial = overlayFragment"
    by (simp add: overlayMaterial_def)
  have out: "renderOverlay (pass\<lparr> passMaterial := overlayMaterial \<rparr>) maskBuffer edgeBuffer1 blurBuffer2 vUv =
     Inr (Some (scale4 (add4 (edgeBuffer1 vUv) (scale4 (blurBuffer2 vUv) (edgeGlow pass))) (edgeStrength pass)))"
    using overlay_assign [of "pass\<lparr> passMaterial := overlayMaterial \<rparr>" maskBuffer edgeBuffer1 blurBuffer2]
    by (simp add: renderOverlay_def prog overlayFragment_def)
  have flags: "blending overlayMaterial = AdditiveBlending \<and>
      depthTest overlayMaterial = False \<and> depthWrite overlayMaterial = False"
    by (simp add: overlayMaterial_def)
  show ?thesis
    using chain installed overlay_dom names out flags by (simp add: prog overlayFragment_ignores)
qed

section \<open>Properties of the hint scheduler\<close>

lemma gsap_to_timerView [simp]:
  "timerView (gsap_to target dest duration ease onComplete s) = timerView s"
  by (simp add: gsap_to_def timerView_def)

lemma hideHint_timerView [simp]: "timerView (hideHint s) = timerView s"
  by (simp add: hideHint_def)


lemma zoomToObject_timerView [simp]: "timerView (zoomToObject obj s) = timerView s"
proof -
  have "timerView (s\<lparr> currentZoomedObject := Some obj, controls_enabled := False,
                       originalCameraPosition := camera_position s,
                       originalControlsTarget := controls_target s \<rparr>) = timerView s"
    by (simp add: timerView_def)
  then show ?thesis
    by (simp add: zoomToObject_def Let_def split: prod.split)
qed

lemma resetCamera_timerView [simp]: "timerView (resetCamera s) = timerView s"
  by (simp add: resetCamera_def)

lemma writeTarget_timerView [simp]: "timerView (writeTarget target v s) = timerView s"
  by (cases target; cases v) (simp_all add: writeTarget_def timerView_def)



















subsection \<open>What a frame leaves alone\<close>

lemma animView_fields:
  assumes "animView s' = animView s"
  shows "outlinePass s' = outlinePass s" "hintActive s' = hintActive s" "tweens s' = tweens s"
  using assms by (simp_all add: animView_def)

lemma startHintTimer_animView: "animView (startHintTimer s) = animView s"
  by (cases "hintTimer s")
     (simp_all add: startHintTimer_def clearTimeout_def setTimeout_def Let_def animView_def)

lemma writeTarget_bystander:
  assumes "target \<noteq> OutlineEdgeStrength"
  shows "animView (writeTarget target v s) = animView s"
  using assms by (cases target; cases v) (simp_all add: writeTarget_def animView_def)

lemma runCallback_bystander:
  assumes "cb \<noteq> HideHintComplete"
  shows "animView (runCallback cb s) = animView s"
proof (cases cb)
  case NoCallback
  then show ?thesis by (simp add: runCallback_def)
next
  case HideHintComplete
  with assms show ?thesis by simp
next
  case ResetCameraComplete
  have "animView (startHintTimer (s\<lparr> controls_enabled := True, currentZoomedObject := None \<rparr>)) =
      animView (s\<lparr> controls_enabled := True, currentZoomedObject := None \<rparr>)"
    by (rule startHintTimer_animView)
  also have "\<dots> = animView s"
    by (simp add: animView_def)
  finally show ?thesis using ResetCameraComplete by (simp add: runCallback_def)
qed

lemma renderTween_unfold:
  "renderTween dt s tw =
     (if tw_duration tw \<le> tw_elapsed tw + dt then
        runCallback (tw_onComplete tw)
          (writeTarget (tw_target tw)
             (mix (case tw_start tw of Some v \<Rightarrow> v | None \<Rightarrow> readTarget (tw_target tw) s) (tw_to tw)
                (easeFn (tw_ease tw) (min 1 ((tw_elapsed tw + dt) / tw_duration tw)))) s)
      else
        (writeTarget (tw_target tw)
           (mix (case tw_start tw of Some v \<Rightarrow> v | None \<Rightarrow> readTarget (tw_target tw) s) (tw_to tw)
              (easeFn (tw_ease tw) (min 1 ((tw_elapsed tw + dt) / tw_duration tw)))) s)
        \<lparr> tweens := tweens (writeTarget (tw_target tw)
           (mix (case tw_start tw of Some v \<Rightarrow> v | None \<Rightarrow> readTarget (tw_target tw) s) (tw_to tw)
              (easeFn (tw_ease tw) (min 1 ((tw_elapsed tw + dt) / tw_duration tw)))) s) @
           [tw\<lparr> tw_elapsed := tw_elapsed tw + dt,
                tw_start := Some (case tw_start tw of Some v \<Rightarrow> v | None \<Rightarrow> readTarget (tw_target tw) s) \<rparr>] \<rparr>)"
  by (simp add: renderTween_def Let_def)

lemma tweens_startHintTimer: "tweens (startHintTimer s) = tweens s"
  using animView_fields(3) [OF startHintTimer_animView] .

lemma tweens_writeTarget: "tweens (writeTarget target v s) = tweens s"
  by (cases target; cases v) (simp_all add: writeTarget_def)

lemma tweens_runCallback: "tweens (runCallback cb s) = tweens s"
  by (cases cb) (simp_all add: runCallback_def tweens_startHintTimer)

lemma render_bystander:
  assumes "bystander tw"
  shows "outlinePass (renderTween dt s tw) = outlinePass s"
    and "hintActive (renderTween dt s tw) = hintActive s"
    and "\<exists>rest. tweens (renderTween dt s tw) = tweens s @ rest \<and> (\<forall>x \<in> set rest. bystander x)"
proof -
  from assms have target: "tw_target tw \<noteq> OutlineEdgeStrength" and cb: "tw_onComplete tw \<noteq> HideHintComplete"
    by (simp_all add: bystander_def edgeTween_def)
  define w where "w = mix (case tw_start tw of Some v \<Rightarrow> v | None \<Rightarrow> readTarget (tw_target tw) s) (tw_to tw)
      (easeFn (tw_ease tw) (min 1 ((tw_elapsed tw + dt) / tw_duration tw)))"
  define s1 where "s1 = writeTarget (tw_target tw) w s"
  define tw' where "tw' = tw\<lparr> tw_elapsed := tw_elapsed tw + dt,
      tw_start := Some (case tw_start tw of Some v \<Rightarrow> v | None \<Rightarrow> readTarget (tw_target tw) s) \<rparr>"
  have v1: "animView s1 = animView s"
    unfolding s1_def using target by (rule writeTarget_bystander)
  have v2: "animView (runCallback (tw_onComplete tw) s1) = animView s"
    using runCallback_bystander [OF cb, of s1] v1 by simp
  have by': "bystander tw'"
    using assms by (simp add: tw'_def bystander_def edgeTween_def)
  have r: "renderTween dt s tw =
      (if tw_duration tw \<le> tw_elapsed tw + dt then runCallback (tw_onComplete tw) s1
       else s1\<lparr> tweens := tweens s1 @ [tw'] \<rparr>)"
    unfolding renderTween_unfold s1_def w_def tw'_def ..
  show "outlinePass (renderTween dt s tw) = outlinePass s"
    using animView_fields(1) [OF v1] animView_fields(1) [OF v2] by (simp add: r)
  show "hintActive (renderTween dt s tw) = hintActive s"
    using animView_fields(2) [OF v1] animView_fields(2) [OF v2] by (simp add: r)
  show "\<exists>rest. tweens (renderTween dt s tw) = tweens s @ rest \<and> (\<forall>x \<in> set rest. bystander x)"
  proof (cases "tw_duration tw \<le> tw_elapsed tw + dt")
    case True
    then have "tweens (renderTween dt s tw) = tweens s @ []"
      using animView_fields(3) [OF v2] by (simp add: r)
    then show ?thesis by (intro exI [of _ "[]"]) simp
  next
    case False
    then have "tweens (renderTween dt s tw) = tweens s @ [tw']"
      using animView_fields(3) [OF v1] by (simp add: r)
    then show ?thesis using by' by (intro exI [of _ "[tw']"]) simp
  qed
qed

lemma fold_bystanders:
  assumes "\<forall>tw \<in> set tws. bystander tw"
  shows "outlinePass (foldl (renderTween dt) s tws) = outlinePass s \<and>
         hintActive (foldl (renderTween dt) s tws) = hintActive s \<and>
         (\<exists>rest. tweens (foldl (renderTween dt) s tws) = tweens s @ rest \<and> (\<forall>x \<in> set rest. bystander x))"
  using assms
proof (induction tws arbitrary: s)
  case Nil
  show ?case by simp
next
  case (Cons tw tws)
  then have tw: "bystander tw" and tws: "\<forall>x \<in> set tws. bystander x"
    by simp_all
  from render_bystander(3) [OF tw, of dt s] obtain r1 where
    r1: "tweens (renderTween dt s tw) = tweens s @ r1" "\<forall>x \<in> set r1. bystander x"
    by blast
  from Cons.IH [OF tws, of "renderTween dt s tw"] obtain r2 where
    r2: "outlinePass (foldl (renderTween dt) (renderTween dt s tw) tws) = outlinePass (renderTween dt s tw)"
      "hintActive (foldl (renderTween dt) (renderTween dt s tw) tws) = hintActive (renderTween dt s tw)"
      "tweens (foldl (renderTween dt) (renderTween dt s tw) tws) = tweens (renderTween dt s tw) @ r2"
      "\<forall>x \<in> set r2. bystander x"
    by blast
  have "tweens (foldl (renderTween dt) s (tw # tws)) = tweens s @ (r1 @ r2)"
    using r1(1) r2(3) by simp
  moreover have "\<forall>x \<in> set (r1 @ r2). bystander x"
    using r1(2) r2(4) by auto
  ultimately have "\<exists>rest. tweens (foldl (renderTween dt) s (tw # tws)) = tweens s @ rest \<and>
      (\<forall>x \<in> set rest. bystander x)"
    by blast
  then show ?case
    using r2(1,2) render_bystander(1,2) [OF tw, of dt s] by simp
qed

lemma tick_bystanders:
  assumes "\<forall>tw \<in> set (tweens s). bystander tw"
  shows "outlinePass (tick dt s) = outlinePass s"
    and "hintActive (tick dt s) = hintActive s"
    and "\<forall>tw \<in> set (tweens (tick dt s)). bystander tw"
proof -
  from fold_bystanders [OF assms, of "lagSmoothing dt" "s\<lparr> tweens := [] \<rparr>"] obtain rest where
    "outlinePass (tick dt s) = outlinePass s" "hintActive (tick dt s) = hintActive s"
    "tweens (tick dt s) = rest" "\<forall>x \<in> set rest. bystander x"
    by (auto simp: tick_def)
  then show "outlinePass (tick dt s) = outlinePass s" "hintActive (tick dt s) = hintActive s"
    "\<forall>tw \<in> set (tweens (tick dt s)). bystander tw"
    by simp_all
qed

lemma ticks_Cons: "ticks (dt # dts) s = ticks dts (tick dt s)"
  by (simp add: ticks_def)

lemma ticks_bystanders:
  assumes "\<forall>tw \<in> set (tweens s). bystander tw"
  shows "outlinePass (ticks dts s) = outlinePass s \<and> hintActive (ticks dts s) = hintActive s"
  using assms
proof (induction dts arbitrary: s)
  case Nil
  show ?case by (simp add: ticks_def)
next
  case (Cons dt dts)
  have "ticks (dt # dts) s = ticks dts (tick dt s)"
    by (simp add: ticks_def)
  with Cons.IH [OF tick_bystanders(3) [OF Cons.prems, of dt]] tick_bystanders(1,2) [OF Cons.prems, of dt]
  show ?case by simp
qed

lemma camera_tween_bystander:
  "target \<noteq> OutlineEdgeStrength \<Longrightarrow> cb \<noteq> HideHintComplete \<Longrightarrow>
     bystander (newTween target dest duration ease cb)"
  by (simp add: bystander_def edgeTween_def newTween_def)

lemma zoomToObject_anim:
  "outlinePass (zoomToObject obj s) = outlinePass s"
  "hintActive (zoomToObject obj s) = hintActive s"
  "\<exists>cams. tweens (zoomToObject obj s) = tweens s @ cams \<and> (\<forall>tw \<in> set cams. bystander tw)"
proof -
  obtain zoomDistance yOffset targetYOffset useRotation where
    cfg: "zoomConfig (obj_name obj) = (zoomDistance, yOffset, targetYOffset, useRotation)"
    by (cases "zoomConfig (obj_name obj)") auto
  show "outlinePass (zoomToObject obj s) = outlinePass s"
    "hintActive (zoomToObject obj s) = hintActive s"
    by (simp_all add: zoomToObject_def cfg Let_def gsap_to_def)
  have "tweens (zoomToObject obj s) = tweens s @
      [newTween CameraPosition
         (Vec (vector3
            (vec_x (obj_worldPosition obj) + (if useRotation then sin (obj_rotation_y obj) * zoomDistance else 0))
            (vec_y (obj_worldPosition obj) + yOffset)
            (vec_z (obj_worldPosition obj) +
               (if useRotation then cos (obj_rotation_y obj) * zoomDistance else zoomDistance))))
         zoomDuration Power2InOut NoCallback,
       newTween ControlsTarget
         (Vec (vector3 (vec_x (obj_worldPosition obj)) (vec_y (obj_worldPosition obj) + targetYOffset)
            (vec_z (obj_worldPosition obj))))
         zoomDuration Power2InOut NoCallback]"
    by (simp add: zoomToObject_def cfg Let_def gsap_to_def)
  then show "\<exists>cams. tweens (zoomToObject obj s) = tweens s @ cams \<and> (\<forall>tw \<in> set cams. bystander tw)"
    by (simp add: camera_tween_bystander)
qed

lemma resetCamera_anim:
  "outlinePass (resetCamera s) = outlinePass s"
  "hintActive (resetCamera s) = hintActive s"
  "\<exists>cams. tweens (resetCamera s) = tweens s @ cams \<and> (\<forall>tw \<in> set cams. bystander tw)"
proof -
  show "outlinePass (resetCamera s) = outlinePass s" "hintActive (resetCamera s) = hintActive s"
    by (simp_all add: resetCamera_def gsap_to_def)
  show "\<exists>cams. tweens (resetCamera s) = tweens s @ cams \<and> (\<forall>tw \<in> set cams. bystander tw)"
  proof (cases "currentZoomedObject s")
    case None
    then have "tweens (resetCamera s) = tweens s @ []" by (simp add: resetCamera_def)
    then show ?thesis by (intro exI [of _ "[]"]) simp
  next
    case (Some z)
    then have "tweens (resetCamera s) = tweens s @
        [newTween CameraPosition (Vec (originalCameraPosition s)) zoomDuration Power2InOut NoCallback,
         newTween ControlsTarget (Vec (originalControlsTarget s)) zoomDuration Power2InOut ResetCameraComplete]"
      by (simp add: resetCamera_def gsap_to_def)
    then show ?thesis by (simp add: camera_tween_bystander)
  qed
qed

lemma callbacksOk_append: "callbacksOk (xs @ ys) \<longleftrightarrow> callbacksOk xs \<and> callbacksOk ys"
  by (auto simp: callbacksOk_def)

lemma callbacksOk_bystanders: "\<forall>tw \<in> set tws. bystander tw \<Longrightarrow> callbacksOk tws"
  by (auto simp: callbacksOk_def bystander_def)

lemma renderTween_callbacksOk:
  assumes "callbacksOk (tweens s)" and "callbacksOk [tw]"
  shows "callbacksOk (tweens (renderTween dt s tw))"
proof -
  have "tweens (renderTween dt s tw) = tweens s \<or>
      (\<exists>e st. tweens (renderTween dt s tw) = tweens s @ [tw\<lparr> tw_elapsed := e, tw_start := st \<rparr>])"
    unfolding renderTween_unfold by (auto simp: tweens_writeTarget tweens_runCallback)
  moreover have "callbacksOk [tw\<lparr> tw_elapsed := e, tw_start := st \<rparr>]" for e st
    using assms(2) by (simp add: callbacksOk_def edgeTween_def)
  ultimately show ?thesis
    using assms(1) by (auto simp: callbacksOk_append)
qed

lemma foldl_callbacksOk:
  "callbacksOk (tweens s) \<Longrightarrow> callbacksOk tws \<Longrightarrow> callbacksOk (tweens (foldl (renderTween dt) s tws))"
proof (induction tws arbitrary: s)
  case Nil
  then show ?case by simp
next
  case (Cons tw tws)
  from Cons.prems(2) have one: "callbacksOk [tw]" and more: "callbacksOk tws"
    by (simp_all add: callbacksOk_def)
  from Cons.IH [OF renderTween_callbacksOk [OF Cons.prems(1) one] more] show ?case by simp
qed

lemma tick_callbacksOk:
  assumes "callbacksOk (tweens s)"
  shows "callbacksOk (tweens (tick dt s))"
proof -
  have "callbacksOk (tweens (s\<lparr> tweens := [] \<rparr>))"
    by (simp add: callbacksOk_def)
  from foldl_callbacksOk [OF this assms] show ?thesis
    by (simp add: tick_def)
qed

lemma showHint_callbacksOk:
  assumes "callbacksOk (tweens s)"
  shows "callbacksOk (tweens (showHint s))"
proof -
  have "tweens (showHint s) = tweens s \<or> tweens (showHint s) = tweens s @ [fadeIn]"
    by (simp add: showHint_def gsap_to_def fadeIn_def split: option.split)
  moreover have "callbacksOk [fadeIn]"
    by (simp add: callbacksOk_def fadeIn_def newTween_def)
  ultimately show ?thesis using assms by (auto simp: callbacksOk_append)
qed

lemma hideHint_callbacksOk:
  assumes "callbacksOk (tweens s)"
  shows "callbacksOk (tweens (hideHint s))"
proof -
  have "tweens (hideHint s) = tweens s \<or> tweens (hideHint s) = tweens s @ [fadeOut]"
    by (simp add: hideHint_def gsap_to_def fadeOut_def)
  moreover have "callbacksOk [fadeOut]"
    by (simp add: callbacksOk_def fadeOut_def newTween_def edgeTween_def)
  ultimately show ?thesis using assms by (auto simp: callbacksOk_append)
qed

lemma zoomToObject_callbacksOk:
  assumes "callbacksOk (tweens s)"
  shows "callbacksOk (tweens (zoomToObject obj s))"
proof -
  from zoomToObject_anim(3) [of obj s] obtain cams where
    "tweens (zoomToObject obj s) = tweens s @ cams" "\<forall>tw \<in> set cams. bystander tw"
    by blast
  with assms callbacksOk_bystanders [of cams] show ?thesis
    by (simp add: callbacksOk_append)
qed

lemma resetCamera_callbacksOk:
  assumes "callbacksOk (tweens s)"
  shows "callbacksOk (tweens (resetCamera s))"
proof -
  from resetCamera_anim(3) [of s] obtain cams where
    "tweens (resetCamera s) = tweens s @ cams" "\<forall>tw \<in> set cams. bystander tw"
    by blast
  with assms callbacksOk_bystanders [of cams] show ?thesis
    by (simp add: callbacksOk_append)
qed

lemma onMouseClick_callbacksOk:
  assumes "callbacksOk (tweens s)"
  shows "callbacksOk (tweens (onMouseClick afterTap hit s))"
proof -
  define s1 where "s1 = startHintTimer (hideHint s)"
  have s1: "callbacksOk (tweens s1)"
    unfolding s1_def tweens_startHintTimer using assms by (rule hideHint_callbacksOk)
  have "onMouseClick afterTap hit s = s \<or> onMouseClick afterTap hit s = resetCamera s \<or>
      (\<exists>obj. onMouseClick afterTap hit s = resetCamera s1 \<or> onMouseClick afterTap hit s = zoomToObject obj s1)"
    unfolding onMouseClick_def Let_def s1_def [symmetric]
    by (auto split: RayHit.split option.split)
  then show ?thesis
    using assms s1 resetCamera_callbacksOk zoomToObject_callbacksOk by auto
qed

lemma reachable_callbacksOk: "reachable s \<Longrightarrow> callbacksOk (tweens s)"
proof (induction rule: reachable.induct)
  case (start cameraPos controlsTgt)
  show ?case by (simp add: callbacksOk_def newInteractionManager_def)
next
  case (wire s pass objs)
  then show ?case by (simp add: setOutlinePass_def tweens_startHintTimer)
next
  case (click s afterTap hit)
  from click.IH show ?case by (rule onMouseClick_callbacksOk)
next
  case (escape s)
  then show ?case by (simp add: onEscape_def resetCamera_callbacksOk)
next
  case (fire s i)
  have "callbacksOk (tweens (clearTimeout i s))"
    using fire.IH by (simp add: clearTimeout_def)
  then have "callbacksOk (tweens (showHint (clearTimeout i s)))"
    by (rule showHint_callbacksOk)
  with fire.IH show ?case by (simp add: timerFires_def)
next
  case (frame s dt)
  then show ?case by (simp add: tick_callbacksOk)
qed

lemma reachable_bystanders:
  assumes "reachable s" and "\<forall>tw \<in> set (tweens s). \<not> edgeTween tw"
  shows "\<forall>tw \<in> set (tweens s). bystander tw"
  using reachable_callbacksOk [OF assms(1)] assms(2)
  by (auto simp: callbacksOk_def bystander_def)

subsection \<open>The hint timer\<close>


















text \<open>
  Claim C10.  When no outline pass is wired or an object is zoomed, \<open>showHint\<close>
  returns the state it was given; a hint timer that fires then only leaves the list
  of pending timers: pass, \<open>hintActive\<close> and the running tweens are as before, so
  a pass that was off stays off and a flag that was false stays false.
\<close>

theorem hint_blocked_while_zoomed:
  assumes "outlinePass s = None \<or> currentZoomedObject s \<noteq> None"
  shows "showHint s = s \<and>
         outlinePass (timerFires i s) = outlinePass s \<and>
         hintActive (timerFires i s) = hintActive s \<and>
         tweens (timerFires i s) = tweens s \<and>
         (\<not> hintActive s \<longrightarrow> \<not> hintActive (timerFires i s))"
proof -
  have guard: "showHint s' = s'"
    if "outlinePass s' = None \<or> currentZoomedObject s' \<noteq> None" for s'
    using that by (auto simp: showHint_def split: option.splits)
  have "outlinePass (clearTimeout i s) = None \<or> currentZoomedObject (clearTimeout i s) \<noteq> None"
    using assms by (simp add: clearTimeout_def)
  then have "showHint (clearTimeout i s) = clearTimeout i s"
    by (rule guard)
  then have "outlinePass (timerFires i s) = outlinePass s \<and>
         hintActive (timerFires i s) = hintActive s \<and>
         tweens (timerFires i s) = tweens s"
    by (simp add: timerFires_def clearTimeout_def)
  with guard [OF assms] show ?thesis by simp
qed

theorem hint_blocked_while_zoomed_witness:
  "currentZoomedObject (zoomToObject monitorObject
     (setOutlinePass newOutlinePass [monitorObject] (newInteractionManager (vector3 0 3 5) (vector3 0 2 0)))) \<noteq> None \<and>
   1 \<in> fst ` set (timers (zoomToObject monitorObject
     (setOutlinePass newOutlinePass [monitorObject] (newInteractionManager (vector3 0 3 5) (vector3 0 2 0))))) \<and>
   hintActive (timerFires 1 (zoomToObject monitorObject
     (setOutlinePass newOutlinePass [monitorObject] (newInteractionManager (vector3 0 3 5) (vector3 0 2 0))))) = False \<and>
   map_option enabled (outlinePass (timerFires 1 (zoomToObject monitorObject
     (setOutlinePass newOutlinePass [monitorObject] (newInteractionManager (vector3 0 3 5) (vector3 0 2 0)))))) =
     Some False"
proof -
  let ?w = "setOutlinePass newOutlinePass [monitorObject] (newInteractionManager (vector3 0 3 5) (vector3 0 2 0))"
  let ?s = "zoomToObject monitorObject ?w"
  have w: "timers ?w = [(1, 5000)]" "hintActive ?w = False"
      "outlinePass ?w = Some (newOutlinePass\<lparr> selectedObjects := [monitorObject] \<rparr>)"
    by (simp_all add: setOutlinePass_def startHintTimer_def setTimeout_def newInteractionManager_def
        HINT_DELAY_def Let_def)
  have z: "currentZoomedObject ?s = Some monitorObject" "timers ?s = timers ?w"
      "hintActive ?s = hintActive ?w" "outlinePass ?s = outlinePass ?w"
    by (simp_all add: zoomToObject_def gsap_to_def Let_def split: prod.split)
  have "outlinePass ?s = None \<or> currentZoomedObject ?s \<noteq> None"
    using z(1) by simp
  from hint_blocked_while_zoomed [OF this, of 1] z w show ?thesis
    by (simp add: newOutlinePass_def)
qed

subsection \<open>The fade-out\<close>

lemma render_fadeOut:
  assumes pass: "outlinePass s = Some q"
    and start: "st = None \<and> edgeStrength q = v \<or> st = Some (Scalar v)"
  shows "renderTween dt s (fadeOut\<lparr> tw_elapsed := e, tw_start := st \<rparr>) =
     (if 1 \<le> e + dt then
        s\<lparr> outlinePass := Some (q\<lparr> edgeStrength := 0, enabled := False \<rparr>), hintActive := False \<rparr>
      else
        s\<lparr> outlinePass := Some (q\<lparr> edgeStrength := v * (1 - (e + dt) * (e + dt)) \<rparr>),
           tweens := tweens s @ [fadeOut\<lparr> tw_elapsed := e + dt, tw_start := Some (Scalar v) \<rparr>] \<rparr>)"
proof -
  let ?fo = "fadeOut\<lparr> tw_elapsed := e, tw_start := st \<rparr>"
  have read: "(case tw_start ?fo of Some a \<Rightarrow> a | None \<Rightarrow> readTarget (tw_target ?fo) s) = Scalar v"
    using start pass by (auto simp: readTarget_def fadeOut_def newTween_def)
  have fields: "tw_target ?fo = OutlineEdgeStrength" "tw_to ?fo = Scalar 0" "tw_duration ?fo = 1"
    "tw_ease ?fo = Power1In" "tw_onComplete ?fo = HideHintComplete" "tw_elapsed ?fo = e"
    by (simp_all add: fadeOut_def newTween_def)
  have upd: "?fo\<lparr> tw_elapsed := e + dt, tw_start := Some (Scalar v) \<rparr> =
      fadeOut\<lparr> tw_elapsed := e + dt, tw_start := Some (Scalar v) \<rparr>"
    by simp
  have r: "renderTween dt s ?fo =
     (if 1 \<le> e + dt then
        runCallback HideHintComplete
          (writeTarget OutlineEdgeStrength (mix (Scalar v) (Scalar 0) (easeFn Power1In (min 1 ((e + dt) / 1)))) s)
      else
        (writeTarget OutlineEdgeStrength (mix (Scalar v) (Scalar 0) (easeFn Power1In (min 1 ((e + dt) / 1)))) s)
        \<lparr> tweens := tweens (writeTarget OutlineEdgeStrength
              (mix (Scalar v) (Scalar 0) (easeFn Power1In (min 1 ((e + dt) / 1)))) s) @
           [fadeOut\<lparr> tw_elapsed := e + dt, tw_start := Some (Scalar v) \<rparr>] \<rparr>)"
    unfolding renderTween_unfold
    unfolding read
    unfolding fields upd
    by (rule refl)
  show ?thesis
  proof (cases "1 \<le> e + dt")
    case True
    then have "min 1 (e + dt) = 1" by simp
    with True show ?thesis
      by (simp add: r writeTarget_def pass mix_def easeFn_def runCallback_def)
  next
    case False
    then have "min 1 (e + dt) = e + dt" by simp
    with False show ?thesis
      by (simp add: r writeTarget_def pass mix_def easeFn_def algebra_simps)
  qed
qed

lemma tick_fadeOut:
  assumes tws: "tweens s = pre @ fadeOut\<lparr> tw_elapsed := e, tw_start := st \<rparr> # post"
    and pre: "\<forall>tw \<in> set pre. bystander tw" and post: "\<forall>tw \<in> set post. bystander tw"
    and pass: "outlinePass s = Some q"
    and start: "st = None \<and> edgeStrength q = v \<or> st = Some (Scalar v)"
    and d: "d = lagSmoothing dt"
  shows "1 \<le> e + d \<Longrightarrow>
           outlinePass (tick dt s) = Some (q\<lparr> edgeStrength := 0, enabled := False \<rparr>) \<and>
           \<not> hintActive (tick dt s) \<and> (\<forall>tw \<in> set (tweens (tick dt s)). bystander tw)"
    and "e + d < 1 \<Longrightarrow>
           outlinePass (tick dt s) = Some (q\<lparr> edgeStrength := v * (1 - (e + d) * (e + d)) \<rparr>) \<and>
           hintActive (tick dt s) = hintActive s \<and>
           (\<exists>pre' post'. tweens (tick dt s) =
               pre' @ fadeOut\<lparr> tw_elapsed := e + d, tw_start := Some (Scalar v) \<rparr> # post' \<and>
               (\<forall>tw \<in> set pre'. bystander tw) \<and> (\<forall>tw \<in> set post'. bystander tw))"
proof -
  let ?fo = "fadeOut\<lparr> tw_elapsed := e, tw_start := st \<rparr>"
  define s1 where "s1 = foldl (renderTween d) (s\<lparr> tweens := [] \<rparr>) pre"
  define s2 where "s2 = renderTween d s1 ?fo"
  have split: "tick dt s = foldl (renderTween d) s2 post"
    by (simp add: tick_def tws s1_def s2_def d)
  from fold_bystanders [OF pre, of d "s\<lparr> tweens := [] \<rparr>"] obtain r1 where
    s1: "outlinePass s1 = Some q" "hintActive s1 = hintActive s" "tweens s1 = r1"
      "\<forall>x \<in> set r1. bystander x"
    using pass by (auto simp: s1_def)
  from fold_bystanders [OF post, of d s2] obtain r2 where
    s3: "outlinePass (tick dt s) = outlinePass s2" "hintActive (tick dt s) = hintActive s2"
      "tweens (tick dt s) = tweens s2 @ r2" "\<forall>x \<in> set r2. bystander x"
    by (auto simp: split)
  note step = render_fadeOut [OF s1(1) start, of d e]
  show "outlinePass (tick dt s) = Some (q\<lparr> edgeStrength := 0, enabled := False \<rparr>) \<and>
           \<not> hintActive (tick dt s) \<and> (\<forall>tw \<in> set (tweens (tick dt s)). bystander tw)"
    if over: "1 \<le> e + d"
  proof -
    have "s2 = s1\<lparr> outlinePass := Some (q\<lparr> edgeStrength := 0, enabled := False \<rparr>), hintActive := False \<rparr>"
      using step over by (simp add: s2_def)
    then have "outlinePass s2 = Some (q\<lparr> edgeStrength := 0, enabled := False \<rparr>)"
      "\<not> hintActive s2" "tweens s2 = r1"
      using s1(3) by simp_all
    with s3 s1(4) show ?thesis by auto
  qed
  show "outlinePass (tick dt s) = Some (q\<lparr> edgeStrength := v * (1 - (e + d) * (e + d)) \<rparr>) \<and>
           hintActive (tick dt s) = hintActive s \<and>
           (\<exists>pre' post'. tweens (tick dt s) =
               pre' @ fadeOut\<lparr> tw_elapsed := e + d, tw_start := Some (Scalar v) \<rparr> # post' \<and>
               (\<forall>tw \<in> set pre'. bystander tw) \<and> (\<forall>tw \<in> set post'. bystander tw))"
    if running: "e + d < 1"
  proof -
    have "s2 = s1\<lparr> outlinePass := Some (q\<lparr> edgeStrength := v * (1 - (e + d) * (e + d)) \<rparr>),
           tweens := tweens s1 @ [fadeOut\<lparr> tw_elapsed := e + d, tw_start := Some (Scalar v) \<rparr>] \<rparr>"
      using step running by (simp add: s2_def)
    then have "outlinePass s2 = Some (q\<lparr> edgeStrength := v * (1 - (e + d) * (e + d)) \<rparr>)"
      "hintActive s2 = hintActive s"
      "tweens s2 = r1 @ [fadeOut\<lparr> tw_elapsed := e + d, tw_start := Some (Scalar v) \<rparr>]"
      using s1(2,3) by simp_all
    with s3 s1(4) show ?thesis
      by (intro conjI exI [of _ r1] exI [of _ r2]) simp_all
  qed
qed

lemma lagSmoothing_positive: "0 < dt \<Longrightarrow> 0 < lagSmoothing dt"
  by (simp add: lagSmoothing_def)

lemma smoothed_sum_nonneg: "\<forall>dt \<in> set dts. 0 < dt \<Longrightarrow> 0 \<le> sum_list (map lagSmoothing dts)"
proof (induction dts)
  case Nil
  show ?case by simp
next
  case (Cons dt dts)
  then have "0 < lagSmoothing dt" "0 \<le> sum_list (map lagSmoothing dts)"
    by (simp_all add: lagSmoothing_positive)
  then show ?case by simp
qed

lemma fade_out_runs:
  assumes tws: "tweens s = pre @ fadeOut\<lparr> tw_elapsed := e, tw_start := st \<rparr> # post"
    and pre: "\<forall>tw \<in> set pre. bystander tw" and post: "\<forall>tw \<in> set post. bystander tw"
    and pass: "outlinePass s = Some (p\<lparr> edgeStrength := v * (1 - e * e) \<rparr>)"
    and start: "st = None \<and> e = 0 \<or> st = Some (Scalar v)"
    and act: "hintActive s"
    and running: "e < 1"
    and pos: "\<forall>dt \<in> set dts. 0 < dt"
  shows "(e + sum_list (map lagSmoothing dts) < 1 \<longrightarrow>
           outlinePass (ticks dts s) =
             Some (p\<lparr> edgeStrength :=
               v * (1 - (e + sum_list (map lagSmoothing dts)) * (e + sum_list (map lagSmoothing dts))) \<rparr>) \<and>
           hintActive (ticks dts s)) \<and>
         (1 \<le> e + sum_list (map lagSmoothing dts) \<longrightarrow>
           outlinePass (ticks dts s) = Some (p\<lparr> edgeStrength := 0, enabled := False \<rparr>) \<and>
           \<not> hintActive (ticks dts s))"
  using tws pre post pass start act running pos
proof (induction dts arbitrary: s e st pre post)
  case Nil
  then show ?case by (simp add: ticks_def)
next
  case (Cons dt dts)
  let ?q = "p\<lparr> edgeStrength := v * (1 - e * e) \<rparr>"
  let ?d = "lagSmoothing dt"
  from Cons.prems(8) have dt: "0 < dt" and rest: "\<forall>x \<in> set dts. 0 < x"
    by simp_all
  have start': "st = None \<and> edgeStrength ?q = v \<or> st = Some (Scalar v)"
    using Cons.prems(5) by auto
  note step = tick_fadeOut [OF Cons.prems(1,2,3,4) start' refl, of dt]
  show ?case
  proof (cases "1 \<le> e + ?d")
    case True
    from step(1) [OF True] have fin: "outlinePass (tick dt s) = Some (?q\<lparr> edgeStrength := 0, enabled := False \<rparr>)"
      "\<not> hintActive (tick dt s)" "\<forall>tw \<in> set (tweens (tick dt s)). bystander tw"
      by simp_all
    from ticks_bystanders [OF fin(3), of dts] fin(1,2)
    have "outlinePass (ticks (dt # dts) s) = Some (p\<lparr> edgeStrength := 0, enabled := False \<rparr>) \<and>
        \<not> hintActive (ticks (dt # dts) s)"
      by (simp add: ticks_Cons)
    moreover have "1 \<le> e + sum_list (map lagSmoothing (dt # dts))"
      using True smoothed_sum_nonneg [OF rest] by simp
    ultimately show ?thesis by simp
  next
    case False
    then have lt: "e + ?d < 1" by simp
    from step(2) [OF lt] obtain pre' post' where
      mid: "outlinePass (tick dt s) = Some (?q\<lparr> edgeStrength := v * (1 - (e + ?d) * (e + ?d)) \<rparr>)"
        "hintActive (tick dt s) = hintActive s"
        "tweens (tick dt s) = pre' @ fadeOut\<lparr> tw_elapsed := e + ?d, tw_start := Some (Scalar v) \<rparr> # post'"
        "\<forall>tw \<in> set pre'. bystander tw" "\<forall>tw \<in> set post'. bystander tw"
      by blast
    have pass': "outlinePass (tick dt s) = Some (p\<lparr> edgeStrength := v * (1 - (e + ?d) * (e + ?d)) \<rparr>)"
      using mid(1) by simp
    have act': "hintActive (tick dt s)"
      using mid(2) Cons.prems(6) by simp
    have "Some (Scalar v) = None \<and> e + ?d = 0 \<or> Some (Scalar v) = Some (Scalar v)"
      by simp
    from Cons.IH [OF mid(3,4,5) pass' this act' lt rest]
    show ?thesis
      by (simp add: ticks_Cons add.assoc)
  qed
qed

lemma hideHint_active:
  assumes "hintActive s" and "outlinePass s = Some p"
  shows "hideHint s = s\<lparr> tweens := tweens s @ [fadeOut] \<rparr>"
  using assms by (simp add: hideHint_def gsap_to_def fadeOut_def)

lemma accepted_click_anim:
  assumes act: "hintActive s" and pass: "outlinePass s = Some p"
  shows "outlinePass (onMouseClick False (Intersection (Some obj)) s) = Some p"
    and "hintActive (onMouseClick False (Intersection (Some obj)) s)"
    and "\<exists>cams. tweens (onMouseClick False (Intersection (Some obj)) s) = tweens s @ fadeOut # cams \<and>
           (\<forall>tw \<in> set cams. bystander tw)"
proof -
  define s1 where "s1 = startHintTimer (hideHint s)"
  have "animView s1 = animView (hideHint s)"
    unfolding s1_def by (rule startHintTimer_animView)
  then have s1: "outlinePass s1 = Some p" "hintActive s1" "tweens s1 = tweens s @ [fadeOut]"
    using act pass by (simp_all add: animView_def hideHint_active [OF act pass])
  define s2 where "s2 = onMouseClick False (Intersection (Some obj)) s"
  have "s2 = resetCamera s1 \<or> s2 = zoomToObject obj s1"
    by (simp add: s2_def onMouseClick_def Let_def s1_def split: option.split)
  then have "outlinePass s2 = outlinePass s1 \<and> hintActive s2 = hintActive s1 \<and>
      (\<exists>cams. tweens s2 = tweens s1 @ cams \<and> (\<forall>tw \<in> set cams. bystander tw))"
    using resetCamera_anim [of s1] zoomToObject_anim [of obj s1] by auto
  then show "outlinePass (onMouseClick False (Intersection (Some obj)) s) = Some p"
    "hintActive (onMouseClick False (Intersection (Some obj)) s)"
    "\<exists>cams. tweens (onMouseClick False (Intersection (Some obj)) s) = tweens s @ fadeOut # cams \<and>
           (\<forall>tw \<in> set cams. bystander tw)"
    using s1 by (auto simp: s2_def)
qed

lemma settled_writeTarget:
  "map_option settled (outlinePass (writeTarget target v s)) = map_option settled (outlinePass s)"
  by (cases target; cases v; cases "outlinePass s") (simp_all add: writeTarget_def settled_def)

lemma settled_runCallback:
  "map_option settled (outlinePass (runCallback cb s)) = map_option settled (outlinePass s)"
proof (cases cb)
  case NoCallback
  then show ?thesis by (simp add: runCallback_def)
next
  case HideHintComplete
  then show ?thesis by (cases "outlinePass s") (simp_all add: runCallback_def settled_def)
next
  case ResetCameraComplete
  have "outlinePass (startHintTimer (s\<lparr> controls_enabled := True, currentZoomedObject := None \<rparr>)) = outlinePass s"
    using animView_fields(1) [OF startHintTimer_animView] by simp
  with ResetCameraComplete show ?thesis by (simp add: runCallback_def)
qed

lemma settled_renderTween:
  "map_option settled (outlinePass (renderTween d s tw)) = map_option settled (outlinePass s)"
  unfolding renderTween_unfold
  by (simp add: settled_writeTarget settled_runCallback)

lemma settled_foldl:
  "map_option settled (outlinePass (foldl (renderTween d) s tws)) = map_option settled (outlinePass s)"
  by (induction tws arbitrary: s) (simp_all add: settled_renderTween)

lemma tick_fadeOut_racing:
  assumes tws: "tweens s = pre @ fadeOut\<lparr> tw_elapsed := e, tw_start := st \<rparr> # post"
    and post: "\<forall>tw \<in> set post. bystander tw"
    and pass: "outlinePass s = Some q"
    and start: "st = None \<or> (\<exists>v. st = Some (Scalar v))"
    and d: "d = lagSmoothing dt"
  shows "1 \<le> e + d \<Longrightarrow>
           outlinePass (tick dt s) = Some (settled q) \<and> \<not> hintActive (tick dt s)"
    and "e + d < 1 \<Longrightarrow>
           \<exists>pre' v post' q'. tweens (tick dt s) =
               pre' @ fadeOut\<lparr> tw_elapsed := e + d, tw_start := Some (Scalar v) \<rparr> # post' \<and>
             (\<forall>tw \<in> set post'. bystander tw) \<and>
             outlinePass (tick dt s) = Some q' \<and> settled q' = settled q"
proof -
  let ?fo = "fadeOut\<lparr> tw_elapsed := e, tw_start := st \<rparr>"
  define s1 where "s1 = foldl (renderTween d) (s\<lparr> tweens := [] \<rparr>) pre"
  define s2 where "s2 = renderTween d s1 ?fo"
  have split: "tick dt s = foldl (renderTween d) s2 post"
    by (simp add: tick_def tws s1_def s2_def d)
  have "map_option settled (outlinePass s1) = Some (settled q)"
    unfolding s1_def settled_foldl using pass by simp
  then obtain q1 where q1: "outlinePass s1 = Some q1" "settled q1 = settled q"
    by (cases "outlinePass s1") simp_all
  from start obtain v where v: "st = None \<and> edgeStrength q1 = v \<or> st = Some (Scalar v)"
    by blast
  note s2 = render_fadeOut [OF q1(1) v, of d e, folded s2_def]
  from fold_bystanders [OF post, of d s2] obtain rest where
    fin: "outlinePass (tick dt s) = outlinePass s2" "hintActive (tick dt s) = hintActive s2"
      "tweens (tick dt s) = tweens s2 @ rest" "\<forall>x \<in> set rest. bystander x"
    unfolding split by blast
  show "outlinePass (tick dt s) = Some (settled q) \<and> \<not> hintActive (tick dt s)" if "1 \<le> e + d"
    using that s2 fin(1,2) q1(2) by (simp add: settled_def)
  show "\<exists>pre' v post' q'. tweens (tick dt s) =
               pre' @ fadeOut\<lparr> tw_elapsed := e + d, tw_start := Some (Scalar v) \<rparr> # post' \<and>
             (\<forall>tw \<in> set post'. bystander tw) \<and>
             outlinePass (tick dt s) = Some q' \<and> settled q' = settled q" if "e + d < 1"
  proof -
    from that s2 have
      tw2: "tweens s2 = tweens s1 @ [fadeOut\<lparr> tw_elapsed := e + d, tw_start := Some (Scalar v) \<rparr>]"
      and p2: "outlinePass s2 = Some (q1\<lparr> edgeStrength := v * (1 - (e + d) * (e + d)) \<rparr>)"
      by simp_all
    have "settled (q1\<lparr> edgeStrength := v * (1 - (e + d) * (e + d)) \<rparr>) = settled q"
      using q1(2) by (simp add: settled_def)
    with fin(1,3,4) tw2 p2 show ?thesis
      by (intro exI [of _ "tweens s1"] exI [of _ v] exI [of _ rest]
          exI [of _ "q1\<lparr> edgeStrength := v * (1 - (e + d) * (e + d)) \<rparr>"]) simp
  qed
qed

lemma fade_out_completes:
  assumes tws: "tweens s = pre @ fadeOut\<lparr> tw_elapsed := e, tw_start := st \<rparr> # post"
    and post: "\<forall>tw \<in> set post. bystander tw"
    and pass: "outlinePass s = Some q"
    and start: "st = None \<or> (\<exists>v. st = Some (Scalar v))"
    and pos: "\<forall>dt \<in> set fs. 0 < dt"
    and before: "e + sum_list (map lagSmoothing fs) < 1"
    and reached: "1 \<le> e + sum_list (map lagSmoothing fs) + lagSmoothing d"
  shows "outlinePass (ticks (fs @ [d]) s) = Some (settled q) \<and> \<not> hintActive (ticks (fs @ [d]) s)"
  using tws post pass start pos before reached
proof (induction fs arbitrary: s e st pre post q)
  case Nil
  from Nil.prems(7) have "1 \<le> e + lagSmoothing d" by simp
  from tick_fadeOut_racing(1) [OF Nil.prems(1,2,3,4) refl this]
  show ?case by (simp add: ticks_def)
next
  case (Cons f fs)
  from Cons.prems(5) have rest: "\<forall>x \<in> set fs. 0 < x" by simp
  from Cons.prems(6) smoothed_sum_nonneg [OF rest] have lt: "e + lagSmoothing f < 1"
    by simp
  from tick_fadeOut_racing(2) [OF Cons.prems(1,2,3,4) refl lt] obtain pre' v post' q' where
    mid: "tweens (tick f s) = pre' @ fadeOut\<lparr> tw_elapsed := e + lagSmoothing f, tw_start := Some (Scalar v) \<rparr> # post'"
      "\<forall>tw \<in> set post'. bystander tw" "outlinePass (tick f s) = Some q'" "settled q' = settled q"
    by blast
  have start': "Some (Scalar v) = None \<or> (\<exists>u. Some (Scalar v) = Some (Scalar u))"
    by simp
  have before': "e + lagSmoothing f + sum_list (map lagSmoothing fs) < 1"
    using Cons.prems(6) by (simp add: add.assoc)
  have reached': "1 \<le> e + lagSmoothing f + sum_list (map lagSmoothing fs) + lagSmoothing d"
    using Cons.prems(7) by (simp add: add.assoc)
  from Cons.IH [OF mid(1,2,3) start' rest before' reached'] mid(4)
  show ?case by (simp add: ticks_Cons)
qed

text \<open>
  Claim C4, amended.  In a reachable state with the hint active, an accepted click
  on an object leaves the outline pass as it is (\<open>edgeStrength\<close> is not reset),
  keeps every running tween and adds the fade-out: a tween of \<open>edgeStrength\<close> to 0
  that lasts one second, eases in and on completion disables the pass and clears
  \<open>hintActive\<close>; the camera tweens the click adds are not tweens of
  \<open>edgeStrength\<close>.  Time is counted as GSAP's ticker counts it, every frame with
  its smoothed length.  Whatever else is running, a fade-in included, at the frame
  that completes the second \<open>edgeStrength\<close> is 0, the pass is disabled and
  \<open>hintActive\<close> is false.  When no other tween of \<open>edgeStrength\<close> is running, then
  after frames that add up to \<open>e\<close> seconds \<open>edgeStrength\<close> is its value at the
  click times \<open>1 - e\<^sup>2\<close> while \<open>e < 1\<close>, and from one second on it is 0, the pass
  is disabled and \<open>hintActive\<close> is false.
\<close>

theorem selection_starts_fade_out:
  assumes reach: "reachable s" and act: "hintActive s" and pass: "outlinePass s = Some p"
  shows "outlinePass (onMouseClick False (Intersection (Some obj)) s) = Some p \<and>
         hintActive (onMouseClick False (Intersection (Some obj)) s) \<and>
         (\<exists>cams. tweens (onMouseClick False (Intersection (Some obj)) s) = tweens s @ fadeOut # cams \<and>
            (\<forall>tw \<in> set cams. \<not> edgeTween tw)) \<and>
         ((\<forall>dt \<in> set dts. 0 < dt) \<and>
          sum_list (map lagSmoothing (butlast dts)) < 1 \<and> 1 \<le> sum_list (map lagSmoothing dts) \<longrightarrow>
            outlinePass (ticks dts (onMouseClick False (Intersection (Some obj)) s)) =
              Some (p\<lparr> edgeStrength := 0, enabled := False \<rparr>) \<and>
            \<not> hintActive (ticks dts (onMouseClick False (Intersection (Some obj)) s))) \<and>
         ((\<forall>tw \<in> set (tweens s). \<not> edgeTween tw) \<and> (\<forall>dt \<in> set dts. 0 < dt) \<longrightarrow>
            (sum_list (map lagSmoothing dts) < 1 \<longrightarrow>
               outlinePass (ticks dts (onMouseClick False (Intersection (Some obj)) s)) =
                 Some (p\<lparr> edgeStrength := edgeStrength p *
                   (1 - sum_list (map lagSmoothing dts) * sum_list (map lagSmoothing dts)) \<rparr>) \<and>
               hintActive (ticks dts (onMouseClick False (Intersection (Some obj)) s))) \<and>
            (1 \<le> sum_list (map lagSmoothing dts) \<longrightarrow>
               outlinePass (ticks dts (onMouseClick False (Intersection (Some obj)) s)) =
                 Some (p\<lparr> edgeStrength := 0, enabled := False \<rparr>) \<and>
               \<not> hintActive (ticks dts (onMouseClick False (Intersection (Some obj)) s))))"
proof -
  let ?c = "onMouseClick False (Intersection (Some obj)) s"
  let ?e = "sum_list (map lagSmoothing dts)"
  note click = accepted_click_anim [OF act pass, of obj]
  from click(3) obtain cams where
    cams: "tweens ?c = tweens s @ fadeOut # cams" "\<forall>tw \<in> set cams. bystander tw"
    by blast
  have tws: "tweens ?c = tweens s @ fadeOut\<lparr> tw_elapsed := 0, tw_start := None \<rparr> # cams"
    using cams(1) by (simp add: fadeOut_def newTween_def)
  have kept: "\<exists>cams. tweens ?c = tweens s @ fadeOut # cams \<and> (\<forall>tw \<in> set cams. \<not> edgeTween tw)"
    using cams by (intro exI [of _ cams]) (simp add: bystander_def)
  have completes:
    "outlinePass (ticks dts ?c) = Some (p\<lparr> edgeStrength := 0, enabled := False \<rparr>) \<and>
     \<not> hintActive (ticks dts ?c)"
    if pos: "\<forall>dt \<in> set dts. 0 < dt"
      and before: "sum_list (map lagSmoothing (butlast dts)) < 1" and reached: "1 \<le> ?e"
  proof -
    from reached have "dts \<noteq> []" by auto
    then have dts: "dts = butlast dts @ [last dts]" by simp
    have pos': "\<forall>dt \<in> set (butlast dts). 0 < dt"
      using pos by (auto dest: in_set_butlastD)
    have start: "(None :: TweenValue option) = None \<or> (\<exists>v. None = Some (Scalar v))"
      by simp
    have before': "0 + sum_list (map lagSmoothing (butlast dts)) < 1"
      using before by simp
    have "?e = sum_list (map lagSmoothing (butlast dts)) + lagSmoothing (last dts)"
      by (subst dts) simp
    with reached have reached': "1 \<le> 0 + sum_list (map lagSmoothing (butlast dts)) + lagSmoothing (last dts)"
      by simp
    from fade_out_completes [OF tws cams(2) click(1) start pos' before' reached'] dts
    show ?thesis by (simp add: settled_def)
  qed
  have dynamics:
    "(?e < 1 \<longrightarrow>
        outlinePass (ticks dts ?c) = Some (p\<lparr> edgeStrength := edgeStrength p * (1 - ?e * ?e) \<rparr>) \<and>
        hintActive (ticks dts ?c)) \<and>
     (1 \<le> ?e \<longrightarrow>
        outlinePass (ticks dts ?c) = Some (p\<lparr> edgeStrength := 0, enabled := False \<rparr>) \<and>
        \<not> hintActive (ticks dts ?c))"
    if others: "\<forall>tw \<in> set (tweens s). \<not> edgeTween tw" and pos: "\<forall>dt \<in> set dts. 0 < dt"
  proof -
    note quiet = reachable_bystanders [OF reach others]
    have pass0: "outlinePass ?c = Some (p\<lparr> edgeStrength := edgeStrength p * (1 - 0 * 0) \<rparr>)"
      using click(1) by simp
    have start0: "(None :: TweenValue option) = None \<and> (0::real) = 0 \<or> None = Some (Scalar (edgeStrength p))"
      by simp
    from fade_out_runs [OF tws quiet cams(2) pass0 start0 click(2) _ pos]
    show ?thesis by simp
  qed
  from click(1,2) kept completes dynamics show ?thesis by blast
qed

lemma wired_state:
  "setOutlinePass newOutlinePass [monitorObject] (newInteractionManager (vector3 0 3 5) (vector3 0 2 0)) =
     (newInteractionManager (vector3 0 3 5) (vector3 0 2 0))
       \<lparr> outlinePass := Some (newOutlinePass\<lparr> selectedObjects := [monitorObject] \<rparr>),
         hintTimer := Some 1, timers := [(1, 5000)], nextTimerId := 2 \<rparr>"
  by (simp add: setOutlinePass_def startHintTimer_def setTimeout_def newInteractionManager_def
      HINT_DELAY_def Let_def)

lemma hint_shown:
  "timerFires 1 (setOutlinePass newOutlinePass [monitorObject] (newInteractionManager (vector3 0 3 5) (vector3 0 2 0))) =
     (newInteractionManager (vector3 0 3 5) (vector3 0 2 0))
       \<lparr> outlinePass := Some (newOutlinePass\<lparr> selectedObjects := [monitorObject], edgeStrength := 0, enabled := True \<rparr>),
         hintActive := True,
         hintTimer := Some 1, timers := [], nextTimerId := 2, tweens := [fadeIn] \<rparr>"
  unfolding wired_state
  by (simp add: timerFires_def clearTimeout_def showHint_def gsap_to_def fadeIn_def newInteractionManager_def)

lemma mid_fade_in:
  "tick 0.5 (timerFires 1 (setOutlinePass newOutlinePass [monitorObject] (newInteractionManager (vector3 0 3 5) (vector3 0 2 0)))) =
     (newInteractionManager (vector3 0 3 5) (vector3 0 2 0))
       \<lparr> outlinePass := Some (newOutlinePass\<lparr> selectedObjects := [monitorObject], edgeStrength := 0.875, enabled := True \<rparr>),
         hintActive := True,
         hintTimer := Some 1, timers := [], nextTimerId := 2,
         tweens := [fadeIn\<lparr> tw_elapsed := 0.5, tw_start := Some (Scalar 0) \<rparr>] \<rparr>"
  unfolding hint_shown
  by (simp add: tick_def lagSmoothing_def renderTween_def Let_def fadeIn_def newTween_def readTarget_def
      writeTarget_def mix_def easeFn_def newInteractionManager_def)

lemma idle_active:
  "ticks [0.5, 0.5, 0.5, 0.5] (timerFires 1 (setOutlinePass newOutlinePass [monitorObject]
      (newInteractionManager (vector3 0 3 5) (vector3 0 2 0)))) =
     (newInteractionManager (vector3 0 3 5) (vector3 0 2 0))
       \<lparr> outlinePass := Some (newOutlinePass\<lparr> selectedObjects := [monitorObject], edgeStrength := 2, enabled := True \<rparr>),
         hintActive := True,
         hintTimer := Some 1, timers := [], nextTimerId := 2, tweens := [] \<rparr>"
  unfolding hint_shown
  by (simp add: ticks_def tick_def lagSmoothing_def renderTween_def Let_def fadeIn_def newTween_def
      readTarget_def writeTarget_def mix_def easeFn_def runCallback_def newInteractionManager_def)

theorem selection_starts_fade_out_witness:
  "reachable (ticks [0.5, 0.5, 0.5, 0.5] (timerFires 1 (setOutlinePass newOutlinePass [monitorObject]
      (newInteractionManager (vector3 0 3 5) (vector3 0 2 0))))) \<and>
   hintActive (ticks [0.5, 0.5, 0.5, 0.5] (timerFires 1 (setOutlinePass newOutlinePass [monitorObject]
      (newInteractionManager (vector3 0 3 5) (vector3 0 2 0))))) \<and>
   outlinePass (ticks [0.5, 0.5, 0.5, 0.5] (timerFires 1 (setOutlinePass newOutlinePass [monitorObject]
      (newInteractionManager (vector3 0 3 5) (vector3 0 2 0))))) =
     Some (newOutlinePass\<lparr> selectedObjects := [monitorObject], edgeStrength := 2, enabled := True \<rparr>) \<and>
   outlinePass (ticks [0.25, 0.25] (onMouseClick False (Intersection (Some monitorObject))
     (ticks [0.5, 0.5, 0.5, 0.5] (timerFires 1 (setOutlinePass newOutlinePass [monitorObject]
        (newInteractionManager (vector3 0 3 5) (vector3 0 2 0))))))) =
     Some (newOutlinePass\<lparr> selectedObjects := [monitorObject], edgeStrength := 1.5, enabled := True \<rparr>) \<and>
   outlinePass (ticks [0.75] (onMouseClick False (Intersection (Some monitorObject))
     (ticks [0.5, 0.5, 0.5, 0.5] (timerFires 1 (setOutlinePass newOutlinePass [monitorObject]
        (newInteractionManager (vector3 0 3 5) (vector3 0 2 0))))))) =
     Some (newOutlinePass\<lparr> selectedObjects := [monitorObject], edgeStrength := 1.997822, enabled := True \<rparr>) \<and>
   outlinePass (ticks [0.5, 0.5] (onMouseClick False (Intersection (Some monitorObject))
     (ticks [0.5, 0.5, 0.5, 0.5] (timerFires 1 (setOutlinePass newOutlinePass [monitorObject]
        (newInteractionManager (vector3 0 3 5) (vector3 0 2 0))))))) =
     Some (newOutlinePass\<lparr> selectedObjects := [monitorObject], edgeStrength := 0, enabled := False \<rparr>) \<and>
   reachable (tick 0.5 (timerFires 1 (setOutlinePass newOutlinePass [monitorObject]
      (newInteractionManager (vector3 0 3 5) (vector3 0 2 0))))) \<and>
   outlinePass (tick 0.5 (timerFires 1 (setOutlinePass newOutlinePass [monitorObject]
      (newInteractionManager (vector3 0 3 5) (vector3 0 2 0))))) =
     Some (newOutlinePass\<lparr> selectedObjects := [monitorObject], edgeStrength := 0.875, enabled := True \<rparr>) \<and>
   outlinePass (ticks [0.5, 0.5] (onMouseClick False (Intersection (Some monitorObject))
     (tick 0.5 (timerFires 1 (setOutlinePass newOutlinePass [monitorObject]
        (newInteractionManager (vector3 0 3 5) (vector3 0 2 0))))))) =
     Some (newOutlinePass\<lparr> selectedObjects := [monitorObject], edgeStrength := 0, enabled := False \<rparr>) \<and>
   \<not> hintActive (ticks [0.5, 0.5] (onMouseClick False (Intersection (Some monitorObject))
     (tick 0.5 (timerFires 1 (setOutlinePass newOutlinePass [monitorObject]
        (newInteractionManager (vector3 0 3 5) (vector3 0 2 0)))))))"
proof -
  let ?h = "timerFires 1 (setOutlinePass newOutlinePass [monitorObject]
      (newInteractionManager (vector3 0 3 5) (vector3 0 2 0)))"
  let ?a = "ticks [0.5, 0.5, 0.5, 0.5] ?h"
  let ?m = "tick 0.5 ?h"
  let ?p = "newOutlinePass\<lparr> selectedObjects := [monitorObject], edgeStrength := 2, enabled := True \<rparr>"
  let ?q = "newOutlinePass\<lparr> selectedObjects := [monitorObject], edgeStrength := 0.875, enabled := True \<rparr>"
  have act: "hintActive ?a" and pass: "outlinePass ?a = Some ?p" and idle: "tweens ?a = []"
    unfolding idle_active by simp_all
  have shown: "reachable ?h"
    by (intro reachable.fire reachable.wire reachable.start)
  have reach: "reachable ?a"
    unfolding ticks_def foldl_Cons foldl_Nil
    by (intro reachable.frame shown) simp_all
  have none: "\<forall>tw \<in> set (tweens ?a). \<not> edgeTween tw"
    using idle by simp
  from selection_starts_fade_out [OF reach act pass, of monitorObject "[0.25, 0.25]"] none
  have half: "outlinePass (ticks [0.25, 0.25] (onMouseClick False (Intersection (Some monitorObject)) ?a)) =
      Some (newOutlinePass\<lparr> selectedObjects := [monitorObject], edgeStrength := 1.5, enabled := True \<rparr>)"
    by (simp add: lagSmoothing_def)
  from selection_starts_fade_out [OF reach act pass, of monitorObject "[0.75]"] none
  have lag: "outlinePass (ticks [0.75] (onMouseClick False (Intersection (Some monitorObject)) ?a)) =
      Some (newOutlinePass\<lparr> selectedObjects := [monitorObject], edgeStrength := 1.997822, enabled := True \<rparr>)"
    by (simp add: lagSmoothing_def)
  from selection_starts_fade_out [OF reach act pass, of monitorObject "[0.5, 0.5]"] none
  have full: "outlinePass (ticks [0.5, 0.5] (onMouseClick False (Intersection (Some monitorObject)) ?a)) =
      Some (newOutlinePass\<lparr> selectedObjects := [monitorObject], edgeStrength := 0, enabled := False \<rparr>)"
    by (simp add: lagSmoothing_def)
  have act': "hintActive ?m" and pass': "outlinePass ?m = Some ?q"
    unfolding mid_fade_in by simp_all
  have reach': "reachable ?m"
    by (intro reachable.frame shown) simp
  from selection_starts_fade_out [OF reach' act' pass', of monitorObject "[0.5, 0.5]"]
  have racing: "outlinePass (ticks [0.5, 0.5] (onMouseClick False (Intersection (Some monitorObject)) ?m)) =
      Some (newOutlinePass\<lparr> selectedObjects := [monitorObject], edgeStrength := 0, enabled := False \<rparr>) \<and>
      \<not> hintActive (ticks [0.5, 0.5] (onMouseClick False (Intersection (Some monitorObject)) ?m))"
    by (simp add: lagSmoothing_def)
  from reach act pass half lag full reach' pass' racing show ?thesis by simp
qed

lemma click_mid_fade_in:
  "onMouseClick False (Intersection (Some monitorObject))
     (tick 0.5 (timerFires 1 (setOutlinePass newOutlinePass [monitorObject]
        (newInteractionManager (vector3 0 3 5) (vector3 0 2 0))))) =
     (newInteractionManager (vector3 0 3 5) (vector3 0 2 0))
       \<lparr> controls_enabled := False,
         currentZoomedObject := Some monitorObject,
         originalCameraPosition := vector3 0 3 5,
         originalControlsTarget := vector3 0 2 0,
         outlinePass := Some (newOutlinePass\<lparr> selectedObjects := [monitorObject], edgeStrength := 0.875, enabled := True \<rparr>),
         hintActive := True,
         hintTimer := Some 2, timers := [(2, 5000)], nextTimerId := 3,
         tweens := [fadeIn\<lparr> tw_elapsed := 0.5, tw_start := Some (Scalar 0) \<rparr>,
                    fadeOut,
                    newTween CameraPosition (Vec (vector3 0 2.35 0.9)) 1.5 Power2InOut NoCallback,
                    newTween ControlsTarget (Vec (vector3 0 2.35 (-1.1))) 1.5 Power2InOut NoCallback] \<rparr>"
  unfolding mid_fade_in
  by (simp add: onMouseClick_def hideHint_def startHintTimer_def clearTimeout_def setTimeout_def
      zoomToObject_def zoomConfig_def zoomDuration_def monitorObject_def gsap_to_def fadeOut_def
      HINT_DELAY_def Let_def newInteractionManager_def vector3_def)

text \<open>
  Claim C4, as stated, fails.  The hint timer fires, half a second of the fade-in
  passes (\<open>edgeStrength\<close> is 0.875), and the monitor is clicked: the fade-in is
  still among the running tweens, next to the fade-out, and both write
  \<open>edgeStrength\<close> on every frame.  After two more frames of half a second the
  fade-out is over and the fade-in is still running; after a third the pass is
  disabled, and \<open>edgeStrength\<close> is not 0 but 2, where the fade-in has taken it.
\<close>

theorem fade_in_survives_selection:
  "hintActive (tick 0.5 (timerFires 1 (setOutlinePass newOutlinePass [monitorObject]
      (newInteractionManager (vector3 0 3 5) (vector3 0 2 0))))) \<and>
   map_option edgeStrength (outlinePass (tick 0.5 (timerFires 1 (setOutlinePass newOutlinePass [monitorObject]
      (newInteractionManager (vector3 0 3 5) (vector3 0 2 0)))))) = Some 0.875 \<and>
   filter edgeTween (tweens (onMouseClick False (Intersection (Some monitorObject))
     (tick 0.5 (timerFires 1 (setOutlinePass newOutlinePass [monitorObject]
        (newInteractionManager (vector3 0 3 5) (vector3 0 2 0))))))) =
     [fadeIn\<lparr> tw_elapsed := 0.5, tw_start := Some (Scalar 0) \<rparr>, fadeOut] \<and>
   filter edgeTween (tweens (ticks [0.5, 0.5]
     (onMouseClick False (Intersection (Some monitorObject))
       (tick 0.5 (timerFires 1 (setOutlinePass newOutlinePass [monitorObject]
          (newInteractionManager (vector3 0 3 5) (vector3 0 2 0)))))))) =
     [fadeIn\<lparr> tw_elapsed := 1.5, tw_start := Some (Scalar 0) \<rparr>] \<and>
   map_option edgeStrength (outlinePass (ticks [0.5, 0.5, 0.5]
     (onMouseClick False (Intersection (Some monitorObject))
       (tick 0.5 (timerFires 1 (setOutlinePass newOutlinePass [monitorObject]
          (newInteractionManager (vector3 0 3 5) (vector3 0 2 0)))))))) = Some 2 \<and>
   map_option enabled (outlinePass (ticks [0.5, 0.5, 0.5]
     (onMouseClick False (Intersection (Some monitorObject))
       (tick 0.5 (timerFires 1 (setOutlinePass newOutlinePass [monitorObject]
          (newInteractionManager (vector3 0 3 5) (vector3 0 2 0)))))))) = Some False"
proof -
  let ?m = "tick 0.5 (timerFires 1 (setOutlinePass newOutlinePass [monitorObject]
      (newInteractionManager (vector3 0 3 5) (vector3 0 2 0))))"
  let ?c = "onMouseClick False (Intersection (Some monitorObject)) ?m"
  have before: "hintActive ?m \<and> map_option edgeStrength (outlinePass ?m) = Some 0.875"
    unfolding mid_fade_in by simp
  have both: "filter edgeTween (tweens ?c) =
      [fadeIn\<lparr> tw_elapsed := 0.5, tw_start := Some (Scalar 0) \<rparr>, fadeOut]"
    unfolding click_mid_fade_in
    by (simp add: edgeTween_def fadeIn_def fadeOut_def newTween_def)
  have still: "filter edgeTween (tweens (ticks [0.5, 0.5] ?c)) =
      [fadeIn\<lparr> tw_elapsed := 1.5, tw_start := Some (Scalar 0) \<rparr>]"
    unfolding click_mid_fade_in
    by (simp add: ticks_def tick_def lagSmoothing_def renderTween_def Let_def fadeIn_def fadeOut_def
        newTween_def readTarget_def writeTarget_def mix_def easeFn_def runCallback_def
        newInteractionManager_def edgeTween_def)
  have after: "map_option edgeStrength (outlinePass (ticks [0.5, 0.5, 0.5] ?c)) = Some 2 \<and>
      map_option enabled (outlinePass (ticks [0.5, 0.5, 0.5] ?c)) = Some False"
    unfolding click_mid_fade_in
    by (simp add: ticks_def tick_def lagSmoothing_def renderTween_def Let_def fadeIn_def fadeOut_def
        newTween_def readTarget_def writeTarget_def mix_def easeFn_def runCallback_def
        newInteractionManager_def)
  from before both still after show ?thesis by simp
qed

end
